theory Spec2Isabelle
  imports Complex_Main "HOL-Library.Multiset"
begin

section \<open>The CRM analytics pipeline of \<^verbatim>\<open>ml-engine/main.py\<close>\<close>

text \<open>
  The pipeline works on a pandas data frame. A data frame is modelled as the list of its
  rows, in row order, with the default \<^verbatim>\<open>RangeIndex\<close> (row \<open>i\<close> has index label \<open>i\<close>), which
  is what \<^verbatim>\<open>pd.DataFrame(customers)\<close>, \<^verbatim>\<open>pd.read_parquet\<close> and \<^verbatim>\<open>pd.read_csv\<close> produce.

  Numbers: a Python \<^verbatim>\<open>float\<close> is a \<^typ>\<open>real\<close>, and its arithmetic is exact except where a
  definition says that it rounds as IEEE doubles do (the composite churn score). A float
  that may be NaN is a \<^typ>\<open>real option\<close> with \<open>None\<close> for NaN (a missing cell of a frame is
  NaN), and a comparison with NaN is false as in numpy; infinities are not modelled.

  The records below are the rows of a frame built from validated request records
  (\<^verbatim>\<open>total_spent: float\<close>, \<^verbatim>\<open>engagement_score: float\<close>), every cell a number;
  \<^verbatim>\<open>days_since_last_purchase\<close> is the integer column that \<^verbatim>\<open>parse_and_fill_dates\<close> leaves
  behind. A frame read from a CSV file can hold NaN in \<^verbatim>\<open>total_spent\<close>: what the value score
  does with such a column is \<open>value_score_column\<close> below. The columns \<^verbatim>\<open>industry\<close>,
  \<^verbatim>\<open>last_interaction_date\<close> and \<^verbatim>\<open>industry_encoded\<close> are read by none of the functions below
  and are left out.
\<close>

subsection \<open>Rows\<close>

record customer =
  customer_id :: string
  company_name :: string
  total_spent :: real
  engagement_score :: real
  purchase_frequency :: int
  days_since_last_purchase :: int

text \<open>The columns that \<^verbatim>\<open>create_advanced_features\<close> adds.\<close>

record feature_row = customer +
  recency :: int
  frequency :: int
  monetary :: real
  engagement_normalized :: real
  high_engagement :: int
  low_engagement :: int
  months_since_last_purchase :: real
  recent_activity :: int
  value_score :: "real option"

subsection \<open>Series helpers\<close>

text \<open>The numbers of a column, its NaN cells dropped.\<close>

definition dropna :: "real option list \<Rightarrow> real list" where
  "dropna col = List.map_filter (\<lambda>cell. cell) col"

text \<open>
  \<^verbatim>\<open>Series.min()\<close> and \<^verbatim>\<open>Series.max()\<close> skip NaN; they take the numbers of the column and
  give NaN when there is none.
\<close>

fun series_min :: "real list \<Rightarrow> real option" where
  "series_min [] = None"
| "series_min (x # xs) = Some (fold min xs x)"

fun series_max :: "real list \<Rightarrow> real option" where
  "series_max [] = None"
| "series_max (x # xs) = Some (fold max xs x)"

text \<open>Float division: a zero divisor gives NaN or an infinity, never an exception.\<close>

definition np_div :: "real \<Rightarrow> real \<Rightarrow> real option" where
  "np_div a b = (if b = 0 then None else Some (a / b))"

text \<open>Comparisons of floats that may be NaN: false as soon as one side is NaN.\<close>

definition nan_gt :: "real option \<Rightarrow> real option \<Rightarrow> bool" where
  "nan_gt a b =
     (case a of None \<Rightarrow> False | Some x \<Rightarrow> (case b of None \<Rightarrow> False | Some y \<Rightarrow> x > y))"

definition nan_ge :: "real option \<Rightarrow> real option \<Rightarrow> bool" where
  "nan_ge a b =
     (case a of None \<Rightarrow> False | Some x \<Rightarrow> (case b of None \<Rightarrow> False | Some y \<Rightarrow> x \<ge> y))"

definition nan_lt :: "real option \<Rightarrow> real option \<Rightarrow> bool" where
  "nan_lt a b = nan_gt b a"

text \<open>\<^verbatim>\<open>Series.clip(lower, upper)\<close> on one entry.\<close>

definition clip :: "int \<Rightarrow> int \<Rightarrow> int \<Rightarrow> int" where
  "clip lower upper x = min upper (max lower x)"

text \<open>\<^verbatim>\<open>(cond).astype(int)\<close> on one entry.\<close>

definition as_int :: "bool \<Rightarrow> int" where
  "as_int b = (if b then 1 else 0)"

subsection \<open>Feature Builder: \<^verbatim>\<open>create_advanced_features\<close>\<close>

text \<open>
  Lines 137-142 on the column \<^verbatim>\<open>df["total_spent"]\<close>, which may hold NaN. \<open>min_v\<close> and \<open>max_v\<close>
  are taken over the numbers of the whole column; the guard
  \<^verbatim>\<open>pd.isna(min_v) or pd.isna(max_v) or max_v == min_v\<close> selects the constant column \<open>0.0\<close>;
  otherwise every cell \<open>t\<close> becomes \<open>(t - min_v) / (max_v - min_v)\<close>, NaN where \<open>t\<close> is NaN.
\<close>

definition value_score_of :: "real option \<Rightarrow> real option \<Rightarrow> real option \<Rightarrow> real option" where
  "value_score_of min_v max_v t =
     (case min_v of
        None \<Rightarrow> Some 0
      | Some lo \<Rightarrow>
          (case max_v of
             None \<Rightarrow> Some 0
           | Some hi \<Rightarrow>
               if hi = lo then Some 0
               else (case t of None \<Rightarrow> None | Some x \<Rightarrow> np_div (x - lo) (hi - lo))))"

definition value_score_column :: "real option list \<Rightarrow> real option list" where
  "value_score_column col =
     (let min_v = series_min (dropna col);
          max_v = series_max (dropna col)
      in map (value_score_of min_v max_v) col)"

text \<open>The other columns of lines 127-135 for one row, and the row's value score \<open>v\<close>.\<close>

definition feature_of :: "customer \<Rightarrow> real option \<Rightarrow> feature_row" where
  "feature_of c v =
     \<lparr> customer_id = customer_id c,
       company_name = company_name c,
       total_spent = total_spent c,
       engagement_score = engagement_score c,
       purchase_frequency = purchase_frequency c,
       days_since_last_purchase = days_since_last_purchase c,
       recency = days_since_last_purchase c,
       frequency = purchase_frequency c,
       monetary = total_spent c,
       engagement_normalized = engagement_score c / 100,
       high_engagement = as_int (engagement_score c > 80),
       low_engagement = as_int (engagement_score c < 40),
       months_since_last_purchase = real_of_int (days_since_last_purchase c) / 30,
       recent_activity = as_int (days_since_last_purchase c < 90),
       value_score = v \<rparr>"

text \<open>
  \<^verbatim>\<open>create_advanced_features\<close> on a frame of validated records: the \<^verbatim>\<open>total_spent\<close> column
  holds the number of every row.
\<close>

definition create_advanced_features :: "customer list \<Rightarrow> feature_row list" where
  "create_advanced_features df =
     map2 feature_of df (value_score_column (map (\<lambda>c. Some (total_spent c)) df))"

subsection \<open>Upsell Detector: \<^verbatim>\<open>detect_upsell_opportunities_large\<close>\<close>

record upsell_opportunity =
  opp_customer_id :: string
  opp_company_name :: string
  opp_upsell_score :: "real option"
  opp_current_value :: real
  opp_potential_value :: real
  opp_recommended_products :: "string list"
  opp_confidence :: string

text \<open>Lines 315-317: the score of one row; NaN in \<^verbatim>\<open>value_score\<close> makes the sum NaN.\<close>

definition upsell_score :: "feature_row \<Rightarrow> real option" where
  "upsell_score r =
     map_option
       (\<lambda>v. (engagement_score r / 100) * 0.3 + v * 0.4
            + real_of_int (recent_activity r) * 0.2
            + (1 - real_of_int (clip 0 365 (days_since_last_purchase r)) / 365) * 0.1)
       (value_score r)"

definition get_recommended_products :: "feature_row \<Rightarrow> string list" where
  "get_recommended_products row =
     (if total_spent row > 100000 then [''Enterprise Plan'', ''Premium Support'', ''Advanced Analytics'']
      else if total_spent row > 50000 then [''Professional Plan'', ''Priority Support'', ''Custom Integration'']
      else [''Standard Plan'', ''Basic Support'', ''Training Package''])"

definition get_upsell_confidence :: "real option \<Rightarrow> string" where
  "get_upsell_confidence score =
     (case score of
        None \<Rightarrow> ''Low Confidence''
      | Some s \<Rightarrow>
          if s \<ge> 0.8 then ''High Confidence''
          else if s \<ge> 0.6 then ''Medium Confidence''
          else ''Low Confidence'')"

definition opportunity_of :: "feature_row \<Rightarrow> upsell_opportunity" where
  "opportunity_of row =
     \<lparr> opp_customer_id = customer_id row,
       opp_company_name = company_name row,
       opp_upsell_score = upsell_score row,
       opp_current_value = total_spent row,
       opp_potential_value = total_spent row * 1.5,
       opp_recommended_products = get_recommended_products row,
       opp_confidence = get_upsell_confidence (upsell_score row) \<rparr>"

text \<open>
  The key of \<^verbatim>\<open>sort_values("upsell_score", ascending=False)\<close>. The sort runs on the rows
  that passed \<^verbatim>\<open>upsell_score > 0.6\<close>, none of which is NaN. pandas sorts with quicksort, so
  the order among equal scores is not fixed by the source; the model sorts stably and
  nothing below depends on the order of ties.
\<close>

definition descending_key :: "feature_row \<Rightarrow> real" where
  "descending_key r = (case upsell_score r of None \<Rightarrow> 0 | Some s \<Rightarrow> - s)"

definition detect_upsell_opportunities_large :: "feature_row list \<Rightarrow> upsell_opportunity list" where
  "detect_upsell_opportunities_large df =
     (let high_pot = sort_key descending_key (filter (\<lambda>r. nan_gt (upsell_score r) (Some 0.6)) df)
      in map opportunity_of high_pot)"

subsection \<open>Churn Scorer: \<^verbatim>\<open>perform_churn_prediction_large\<close>\<close>

text \<open>
  \<^verbatim>\<open>Series.quantile(q)\<close> with the default linear interpolation: on the sorted values, the
  virtual index is \<open>q * (n - 1)\<close>; the result interpolates between its two neighbours. NaN
  on an empty series.
\<close>

definition quantile :: "real list \<Rightarrow> real \<Rightarrow> real option" where
  "quantile xs q =
     (if xs = [] then None
      else
        let s = sort xs;
            pos = q * real (length xs - 1);
            lo = nat \<lfloor>pos\<rfloor>;
            hi = min (lo + 1) (length xs - 1);
            frac = pos - real lo
        in Some (s ! lo + (s ! hi - s ! lo) * frac))"

text \<open>
  Double-precision arithmetic. A finite double is taken as the real number it denotes. The
  result of an operation is the exact result rounded to the nearest double, ties to the even
  significand (IEEE 754 binary64, 53 significant bits, gradual underflow below
  \<^verbatim>\<open>2 ** -1022\<close>); overflow to infinity is not modelled.

  \<open>binade fuel x\<close> is the exponent \<open>e\<close> of a positive \<open>x\<close> (\<^verbatim>\<open>2 ** e <= x < 2 ** (e + 1)\<close>), found by
  doubling or halving at most \<open>fuel\<close> times (2200 steps reach every exponent of a finite
  double, -1074 to 1023); \<open>ulp x\<close> is the spacing of the doubles around \<open>x\<close>.
\<close>

fun binade :: "nat \<Rightarrow> real \<Rightarrow> int" where
  "binade 0 x = 0"
| "binade (Suc fuel) x =
     (if x < 1 then binade fuel (2 * x) - 1
      else if 2 \<le> x then binade fuel (x / 2) + 1
      else 0)"

definition ulp :: "real \<Rightarrow> real" where
  "ulp x = (let e = max (binade 2200 \<bar>x\<bar>) (- 1022) - 52
            in if 0 \<le> e then 2 ^ nat e else 1 / 2 ^ nat (- e))"

definition round_half_even :: "real \<Rightarrow> int" where
  "round_half_even y =
     (let f = \<lfloor>y\<rfloor>
      in if y - of_int f < 1 / 2 then f
         else if 1 / 2 < y - of_int f then f + 1
         else if even f then f else f + 1)"

definition round_double :: "real \<Rightarrow> real" where
  "round_double x = (if x = 0 then 0 else ulp x * of_int (round_half_even (x / ulp x)))"

definition fl_add :: "real \<Rightarrow> real \<Rightarrow> real" where
  "fl_add a b = round_double (a + b)"

definition fl_mul :: "real \<Rightarrow> real \<Rightarrow> real" where
  "fl_mul a b = round_double (a * b)"

text \<open>
  Lines 246-251, one row: the four indicator columns, each \<^verbatim>\<open>astype(int)\<close> and multiplied by
  its weight, added from left to right as Python evaluates \<^verbatim>\<open>+\<close>. The weights are the
  doubles that the literals \<^verbatim>\<open>0.4\<close>, \<^verbatim>\<open>0.3\<close>, \<^verbatim>\<open>0.2\<close> and \<^verbatim>\<open>0.1\<close> denote, and every product and
  sum is rounded.
\<close>

definition churn_score_row :: "bool \<Rightarrow> bool \<Rightarrow> bool \<Rightarrow> bool \<Rightarrow> real" where
  "churn_score_row inactive disengaged no_purchase low_spend =
     fl_add (fl_add (fl_add (fl_mul (real_of_int (as_int inactive)) (round_double 0.4))
                            (fl_mul (real_of_int (as_int disengaged)) (round_double 0.3)))
                    (fl_mul (real_of_int (as_int no_purchase)) (round_double 0.2)))
            (fl_mul (real_of_int (as_int low_spend)) (round_double 0.1))"

text \<open>
  Lines 246-251: the heuristic risk score of every row. The 30th percentile of the spend
  is interpolated exactly.
\<close>

definition churn_score :: "feature_row list \<Rightarrow> real list" where
  "churn_score df =
     (let q30 = quantile (map total_spent df) 0.3
      in map (\<lambda>r. churn_score_row (days_since_last_purchase r > 180)
                     (engagement_score r < 30)
                     (purchase_frequency r = 0)
                     (nan_lt (Some (total_spent r)) q30)) df)"

text \<open>
  \<^verbatim>\<open>Series.nlargest(k).index\<close> and \<^verbatim>\<open>Series.nsmallest(k).index\<close> (\<^verbatim>\<open>keep='first'\<close>): the index
  labels of the \<open>k\<close> largest (smallest) entries, the earlier row first among equal entries.
\<close>

definition nlargest_index :: "nat \<Rightarrow> real list \<Rightarrow> nat list" where
  "nlargest_index k xs = take k (sort_key (\<lambda>i. - (xs ! i)) [0..<length xs])"

definition nsmallest_index :: "nat \<Rightarrow> real list \<Rightarrow> nat list" where
  "nsmallest_index k xs = take k (sort_key (\<lambda>i. xs ! i) [0..<length xs])"

text \<open>\<^verbatim>\<open>df.loc[idx, column] = v\<close> on one column.\<close>

definition loc_assign :: "nat list \<Rightarrow> 'a \<Rightarrow> 'a list \<Rightarrow> 'a list" where
  "loc_assign idx v col = fold (\<lambda>i c. c[i := v]) idx col"

text \<open>
  Lines 252-260: the column \<^verbatim>\<open>churn_label\<close> as training sees it, after thresholding at the
  score's own 70th percentile (interpolated exactly) and the two "ensure variety" steps.
\<close>

definition churn_label :: "feature_row list \<Rightarrow> int list" where
  "churn_label df =
     (let cs = churn_score df;
          churn_threshold = quantile cs 0.7;
          n = length df;
          l0 = map (\<lambda>s. as_int (nan_ge (Some s) churn_threshold)) cs;
          l1 = (if sum_list l0 = 0
                then loc_assign (nlargest_index (max 1 (n div 20)) cs) 1 l0 else l0);
          l2 = (if sum_list l1 = int n
                then loc_assign (nsmallest_index (max 1 (n div 20)) cs) 0 l1 else l1)
      in l2)"

text \<open>Line 262-263: the feature matrix, \<^verbatim>\<open>fillna(0.0)\<close> applied.\<close>

definition churn_features :: "feature_row \<Rightarrow> real list" where
  "churn_features r =
     [real_of_int (recency r), real_of_int (frequency r), monetary r, engagement_normalized r,
      real_of_int (high_engagement r), real_of_int (low_engagement r),
      real_of_int (recent_activity r),
      (case value_score r of None \<Rightarrow> 0 | Some v \<Rightarrow> v)]"

text \<open>
  Lines 266-285 draw the training sample and fit the classifier with XGBoost or
  scikit-learn; what they leave behind is the trained model, taken here as given.

  A trained model, the \<^verbatim>\<open>model_tuple\<close> of the source. The libraries score every row of a
  matrix on its own: an XGBoost booster gives one number per row, a scikit-learn classifier
  one probability per class per row (\<^verbatim>\<open>proba.shape[1]\<close> is its number of classes). A model
  is therefore its per-row scoring function.
\<close>

datatype churn_model =
    XGBoost "real list \<Rightarrow> real"
  | Sklearn nat "real list \<Rightarrow> real list"

fun predict_churn_model :: "churn_model \<Rightarrow> real list list \<Rightarrow> real list" where
  "predict_churn_model (XGBoost booster) X = map (\<lambda>x. min 1 (max 0 (booster x))) X"
| "predict_churn_model (Sklearn n_classes predict_proba) X =
     (if n_classes = 2 then map (\<lambda>x. predict_proba x ! 1) X
      else replicate (length X) 0)"

datatype py_error = NameError | ValueError | FileNotFoundError | OSError | Exception string

text \<open>
  \<^verbatim>\<open>probs[start:end] = values\<close> on a numpy array, with \<open>start \<le> end \<le> len(probs)\<close>: the
  values must have the slice's length, or length one (broadcast).
\<close>

definition assign_slice :: "real list \<Rightarrow> nat \<Rightarrow> nat \<Rightarrow> real list \<Rightarrow> py_error + real list" where
  "assign_slice probs start end values =
     (if length values = end - start then Inr (take start probs @ values @ drop end probs)
      else if length values = 1
        then Inr (take start probs @ replicate (end - start) (hd values) @ drop end probs)
      else Inl ValueError)"

text \<open>\<^verbatim>\<open>X.iloc[start:end]\<close>.\<close>

definition iloc :: "'a list \<Rightarrow> nat \<Rightarrow> nat \<Rightarrow> 'a list" where
  "iloc X start end = take (end - start) (drop start X)"

text \<open>
  Lines 290-293: the body of \<^verbatim>\<open>for start in range(0, n, batch_size)\<close>, from \<open>start\<close> on.
\<close>

function batch_loop ::
  "churn_model \<Rightarrow> real list list \<Rightarrow> nat \<Rightarrow> nat \<Rightarrow> real list \<Rightarrow> py_error + real list" where
  "batch_loop model_tuple X batch_size start probs =
     (if batch_size = 0 then Inl ValueError
      else if start < length X then
        (let end = min (start + batch_size) (length X);
             X_batch = iloc X start end
         in case assign_slice probs start end (predict_churn_model model_tuple X_batch) of
              Inl e \<Rightarrow> Inl e
            | Inr probs' \<Rightarrow> batch_loop model_tuple X batch_size (start + batch_size) probs')
      else Inr probs)"
  by pat_completeness auto
termination
  by (relation "measure (\<lambda>(m, X, b, start, p). length X - start)") auto

text \<open>Lines 288-293 with the batch size as a parameter; the source fixes it to 50000.\<close>

definition predict_in_batches ::
  "churn_model \<Rightarrow> real list list \<Rightarrow> nat \<Rightarrow> py_error + real list" where
  "predict_in_batches model_tuple X batch_size =
     batch_loop model_tuple X batch_size 0 (replicate (length X) 0)"

definition churn_probability :: "churn_model \<Rightarrow> real list list \<Rightarrow> py_error + real list" where
  "churn_probability model_tuple X = predict_in_batches model_tuple X 50000"

subsection \<open>Segmentation Engine: \<^verbatim>\<open>perform_customer_segmentation_large\<close>\<close>

text \<open>\<^verbatim>\<open>str\<close> of a Python integer, as an f-string prints it.\<close>

definition digit_char :: "nat \<Rightarrow> char" where
  "digit_char d = ''0123456789'' ! d"

fun str_nat_onto :: "nat \<Rightarrow> string \<Rightarrow> string" where
  "str_nat_onto n acc =
     (if n < 10 then digit_char n # acc
      else str_nat_onto (n div 10) (digit_char (n mod 10) # acc))"

declare str_nat_onto.simps [simp del]

definition str_nat :: "nat \<Rightarrow> string" where
  "str_nat n = str_nat_onto n []"

definition str_int :: "int \<Rightarrow> string" where
  "str_int i = (if 0 \<le> i then str_nat (nat i) else CHR ''-'' # str_nat (nat (- i)))"

text \<open>\<^verbatim>\<open>Series.mean()\<close>: NaN on an empty series.\<close>

definition series_mean :: "real list \<Rightarrow> real option" where
  "series_mean xs = (if xs = [] then None else Some (sum_list xs / real (length xs)))"

text \<open>Lines 334-345. The percentiles are those of \<^verbatim>\<open>segment_data\<close>, the rows of the segment.\<close>

definition get_segment_name :: "int \<Rightarrow> feature_row list \<Rightarrow> string" where
  "get_segment_name segment_id segment_data =
     (if segment_data = [] then ''Segment '' @ str_int segment_id
      else
        let avg_value = series_mean (map total_spent segment_data);
            avg_engagement = series_mean (map engagement_score segment_data)
        in if nan_gt avg_value (quantile (map total_spent segment_data) 0.7)
              \<and> nan_gt avg_engagement (Some 80)
           then ''High Value Champions''
           else if nan_gt avg_value (quantile (map total_spent segment_data) 0.5)
              \<and> nan_gt avg_engagement (Some 60)
           then ''Loyal Customers''
           else if nan_lt avg_engagement (Some 40)
              \<or> nan_gt (series_mean (map (\<lambda>r. real_of_int (days_since_last_purchase r)) segment_data))
                   (Some 180)
           then ''At Risk''
           else ''Growth Potential'')"

text \<open>
  The naming rule in the words of the specification: the mean value of the segment is
  compared to the 70th and 50th percentile of \<^verbatim>\<open>total_spent\<close> over the whole dataset.
\<close>

definition get_segment_name_dataset_percentiles ::
  "feature_row list \<Rightarrow> int \<Rightarrow> feature_row list \<Rightarrow> string" where
  "get_segment_name_dataset_percentiles dataset segment_id segment_data =
     (if segment_data = [] then ''Segment '' @ str_int segment_id
      else
        let avg_value = series_mean (map total_spent segment_data);
            avg_engagement = series_mean (map engagement_score segment_data)
        in if nan_gt avg_value (quantile (map total_spent dataset) 0.7)
              \<and> nan_gt avg_engagement (Some 80)
           then ''High Value Champions''
           else if nan_gt avg_value (quantile (map total_spent dataset) 0.5)
              \<and> nan_gt avg_engagement (Some 60)
           then ''Loyal Customers''
           else if nan_lt avg_engagement (Some 40)
              \<or> nan_gt (series_mean (map (\<lambda>r. real_of_int (days_since_last_purchase r)) segment_data))
                   (Some 180)
           then ''At Risk''
           else ''Growth Potential'')"

text \<open>Lines 347-357.\<close>

definition get_rule_based_segment :: "feature_row \<Rightarrow> int" where
  "get_rule_based_segment row =
     (if total_spent row > 150000 \<and> engagement_score row > 80 then 0
      else if total_spent row > 75000 \<and> engagement_score row > 60 then 1
      else if engagement_score row < 40 \<or> days_since_last_purchase row > 180 then 2
      else 3)"

record segment =
  seg_name :: string
  seg_count :: nat
  seg_revenue :: real
  seg_avgEngagement :: real
  seg_avgValue :: real
  seg_customers :: "string list"

text \<open>Lines 197-206: the summary of the rows labelled \<open>seg_id\<close>.\<close>

definition segment_summary :: "feature_row list \<Rightarrow> int list \<Rightarrow> int \<Rightarrow> segment" where
  "segment_summary df labels seg_id =
     (let seg_df = map fst (filter (\<lambda>(r, l). l = seg_id) (zip df labels))
      in \<lparr> seg_name = get_segment_name seg_id seg_df,
           seg_count = length seg_df,
           seg_revenue = sum_list (map total_spent seg_df),
           seg_avgEngagement =
             (if seg_df = [] then 0
              else sum_list (map engagement_score seg_df) / real (length seg_df)),
           seg_avgValue =
             (if seg_df = [] then 0
              else sum_list (map total_spent seg_df) / real (length seg_df)),
           seg_customers = map customer_id seg_df \<rparr>)"

text \<open>
  Lines 171-208. \<open>sklearn_available\<close> is the module flag \<^verbatim>\<open>SKLEARN_AVAILABLE\<close>; without
  scikit-learn the name \<^verbatim>\<open>StandardScaler\<close> of line 175 is unbound, and the scaler rejects
  a matrix with no rows. \<open>fit_predict\<close> stands for the clustering of lines 186-189
  (\<^verbatim>\<open>choose_k_sampled\<close> and \<^verbatim>\<open>MiniBatchKMeans.fit_predict\<close> on the scaled matrix): it gives the
  label column. Assigning a column of another length than the frame's raises.
\<close>

definition perform_customer_segmentation_large ::
  "bool \<Rightarrow> (feature_row list \<Rightarrow> int list) \<Rightarrow> feature_row list \<Rightarrow> bool
     \<Rightarrow> py_error + segment list" where
  "perform_customer_segmentation_large sklearn_available fit_predict df force_rule_based =
     (if \<not> sklearn_available then Inl NameError
      else if df = [] then Inl ValueError
      else
        let labels =
              (if length df < 50 \<or> force_rule_based \<or> \<not> sklearn_available
               then map get_rule_based_segment df
               else fit_predict df)
        in if length labels \<noteq> length df then Inl ValueError
           else Inr (map (segment_summary df labels) (sort (remdups labels))))"

subsection \<open>Dispatch Controller: \<^verbatim>\<open>process_customers\<close> and \<^verbatim>\<open>process_customers_background\<close>\<close>

text \<open>
  What the two functions touch outside themselves: the parquet files under \<^verbatim>\<open>/tmp\<close>, the
  result files under \<^verbatim>\<open>MODEL_DIR\<close>, the tasks handed to \<^verbatim>\<open>BackgroundTasks\<close> (run by the
  server after the response is sent), and the log. \<open>'r\<close> is the result of a pipeline run.
\<close>

record 'r world =
  tmp_files :: "string \<rightharpoonup> customer list"
  result_files :: "string \<rightharpoonup> 'r"
  background_tasks :: "(string \<times> string \<times> string) list"
  log :: "string list"

text \<open>
  What the surroundings decide: the configured threshold
  (\<^verbatim>\<open>int(os.getenv("LARGE_DATASET_THRESHOLD", "200000"))\<close>), the clock and the random number
  of the job id, whether writing a file or removing one fails, and the pipeline itself,
  the calls \<^verbatim>\<open>create_advanced_features\<close> \<dots> \<^verbatim>\<open>generate_ai_insights\<close> of lines 458-462 and
  475-479, which return the result or raise.
\<close>

record 'r env =
  LARGE_THRESHOLD :: int
  time_now :: nat
  randint :: nat
  to_parquet_fails :: bool
  json_dump_fails :: bool
  remove_fails :: bool
  pipeline :: "customer list \<Rightarrow> py_error + 'r"

datatype 'r response_data = Job_id string | Result 'r nat

datatype 'r response =
    MLResponse bool string "'r response_data option"
  | HTTPException nat py_error

text \<open>Lines 436-467.\<close>

definition process_customers ::
  "'r env \<Rightarrow> 'r world \<Rightarrow> string \<Rightarrow> customer list \<Rightarrow> 'r response \<times> 'r world" where
  "process_customers env w user_id customers =
     (let n = length customers;
          w1 = w\<lparr>log := log w @ [''Process request: user='' @ user_id @ '' rows='' @ str_nat n]\<rparr>
      in if customers = [] then (MLResponse False ''No customer rows supplied'' None, w1)
         else if int n > LARGE_THRESHOLD env then
           (let job_id = ''job_'' @ str_nat (time_now env) @ ''_'' @ str_nat (randint env);
                tmp_path = ''/tmp/'' @ job_id @ ''.parquet''
            in if to_parquet_fails env
               then (HTTPException 500 OSError, w1\<lparr>log := log w1 @ [''Error in process_customers'']\<rparr>)
               else
                 (MLResponse True (''Dispatched background job '' @ job_id) (Some (Job_id job_id)),
                  w1\<lparr>tmp_files := (tmp_files w1)(tmp_path \<mapsto> customers),
                     background_tasks := background_tasks w1 @ [(tmp_path, user_id, job_id)],
                     log := log w1 @ [''Dataset too large ('' @ str_nat n
                                       @ ''); dispatched to background job '' @ job_id]\<rparr>))
         else
           (case pipeline env customers of
              Inl e \<Rightarrow> (HTTPException 500 e, w1\<lparr>log := log w1 @ [''Error in process_customers'']\<rparr>)
            | Inr result \<Rightarrow> (MLResponse True ''Processed successfully'' (Some (Result result n)), w1)))"

text \<open>
  Lines 472-489, the statements inside the outer \<^verbatim>\<open>try\<close>: the exception that leaves them, if
  any, and the world at that point. \<^verbatim>\<open>os.remove\<close> is the last statement, guarded by its own
  \<^verbatim>\<open>try: ... except Exception: pass\<close>.
\<close>

definition background_body ::
  "'r env \<Rightarrow> 'r world \<Rightarrow> string \<Rightarrow> string \<Rightarrow> string \<Rightarrow> py_error option \<times> 'r world" where
  "background_body env w parquet_path user_id job_id =
     (let w1 = w\<lparr>log := log w @ [''[BG] Starting background job '' @ job_id @ '' for user '' @ user_id]\<rparr>
      in case tmp_files w1 parquet_path of
           None \<Rightarrow> (Some FileNotFoundError, w1)
         | Some df \<Rightarrow>
             (case pipeline env df of
                Inl e \<Rightarrow> (Some e, w1)
              | Inr result \<Rightarrow>
                  (let out_path = ''./models/'' @ job_id @ ''_results.json''
                   in if json_dump_fails env then (Some OSError, w1)
                      else
                        (let w2 = w1\<lparr>result_files := (result_files w1)(out_path \<mapsto> result),
                                      log := log w1 @ [''[BG] Job '' @ job_id
                                               @ '' complete - results saved to '' @ out_path]\<rparr>;
                             w3 = (if remove_fails env then w2
                                   else w2\<lparr>tmp_files := (tmp_files w2)(parquet_path := None)\<rparr>)
                         in (None, w3)))))"

text \<open>
  Lines 470-491: the outer \<^verbatim>\<open>except Exception\<close> logs what the body raised. The first
  component is the exception that leaves the task.
\<close>

definition process_customers_background ::
  "'r env \<Rightarrow> 'r world \<Rightarrow> string \<Rightarrow> string \<Rightarrow> string \<Rightarrow> py_error option \<times> 'r world" where
  "process_customers_background env w parquet_path user_id job_id =
     (case background_body env w parquet_path user_id job_id of
        (None, w') \<Rightarrow> (None, w')
      | (Some e, w') \<Rightarrow> (None, w'\<lparr>log := log w' @ [''[BG] Job '' @ job_id @ '' failed'']\<rparr>))"

subsection \<open>Example data\<close>

text \<open>Four customers; \<open>A\<close> scores exactly 0.6 in the upsell detector.\<close>

definition ex_a :: customer where
  "ex_a = \<lparr> customer_id = ''A'', company_name = ''Acme'', total_spent = 100,
            engagement_score = 100, purchase_frequency = 5, days_since_last_purchase = 0 \<rparr>"
definition ex_b :: customer where
  "ex_b = \<lparr> customer_id = ''B'', company_name = ''Bolt'', total_spent = 300,
            engagement_score = 50, purchase_frequency = 1, days_since_last_purchase = 100 \<rparr>"
definition ex_c :: customer where
  "ex_c = \<lparr> customer_id = ''C'', company_name = ''Core'', total_spent = 200,
            engagement_score = 20, purchase_frequency = 0, days_since_last_purchase = 200 \<rparr>"
definition ex_d :: customer where
  "ex_d = \<lparr> customer_id = ''D'', company_name = ''Dyne'', total_spent = 250,
            engagement_score = 80, purchase_frequency = 3, days_since_last_purchase = 30 \<rparr>"
definition ex_customers :: "customer list" where
  "ex_customers = [ex_a, ex_b, ex_c, ex_d]"

text \<open>A booster that sums its features, and a matrix of five rows.\<close>

definition ex_model :: churn_model where
  "ex_model = XGBoost (\<lambda>x. sum_list x)"
definition ex_matrix :: "real list list" where
  "ex_matrix = [[0.1], [0.5], [2], [- 1], [0.3]]"

text \<open>
  A configuration with threshold 2 whose pipeline is the upsell detector on the features,
  an empty world, and a world that holds the parquet input of a job.
\<close>

definition ex_pipeline :: "customer list \<Rightarrow> py_error + upsell_opportunity list" where
  "ex_pipeline df =
     (if df = [] then Inl ValueError
      else Inr (detect_upsell_opportunities_large (create_advanced_features df)))"

definition ex_env :: "upsell_opportunity list env" where
  "ex_env = \<lparr> LARGE_THRESHOLD = 2, time_now = 1700000000, randint = 424242,
              to_parquet_fails = False, json_dump_fails = False, remove_fails = False,
              pipeline = ex_pipeline \<rparr>"

definition ex_world :: "upsell_opportunity list world" where
  "ex_world = \<lparr> tmp_files = Map.empty, result_files = Map.empty, background_tasks = [], log = [] \<rparr>"

definition ex_job_world :: "upsell_opportunity list world" where
  "ex_job_world = ex_world\<lparr>tmp_files := [''/tmp/job_1.parquet'' \<mapsto> [ex_a, ex_b, ex_d]]\<rparr>"

text \<open>
  A dataset of three customers, one of them a large account, and the segment that the
  rule-based segmentation makes of the large account alone.
\<close>

definition ex_big :: customer where
  "ex_big = \<lparr> customer_id = ''BIG'', company_name = ''Bigco'', total_spent = 200000,
              engagement_score = 90, purchase_frequency = 12, days_since_last_purchase = 10 \<rparr>"

definition ex_dataset :: "feature_row list" where
  "ex_dataset = create_advanced_features [ex_big, ex_b, ex_c]"

definition ex_segment :: "feature_row list" where
  "ex_segment = [feature_of ex_big (Some 1)]"

section \<open>Properties\<close>

subsection \<open>Series helpers\<close>

lemma fold_min_eq_Min: "fold min xs (x::real) = Min (set (x # xs))"
  by (simp only: Min.set_eq_fold)

lemma fold_max_eq_Max: "fold max xs (x::real) = Max (set (x # xs))"
  by (simp only: Max.set_eq_fold)

lemma series_min_Some: "xs \<noteq> [] \<Longrightarrow> series_min xs = Some (Min (set xs))"
  by (cases xs) (simp_all add: fold_min_eq_Min del: set_simps)

lemma series_max_Some: "xs \<noteq> [] \<Longrightarrow> series_max xs = Some (Max (set xs))"
  by (cases xs) (simp_all add: fold_max_eq_Max del: set_simps)


lemma weights_bounded:
  fixes a v r c :: real
  assumes "0 \<le> a" "a \<le> 1" "0 \<le> v" "v \<le> 1" "0 \<le> r" "r \<le> 1" "0 \<le> c" "c \<le> 1"
  shows "0 \<le> a * 0.3 + v * 0.4 + r * 0.2 + (1 - c) * 0.1"
    and "a * 0.3 + v * 0.4 + r * 0.2 + (1 - c) * 0.1 \<le> 1"
  using assms by (simp_all add: field_simps)

lemma clip_fraction_bounds:
  "0 \<le> real_of_int (clip 0 365 d) / 365" "real_of_int (clip 0 365 d) / 365 \<le> 1"
  by (simp_all add: clip_def)

subsection \<open>The value score column\<close>

lemma dropna_map_Some [simp]: "dropna (map (\<lambda>x. Some (f x)) xs) = map f xs"
  by (induction xs) (simp_all add: dropna_def)

lemma dropna_no_NaN: "None \<notin> set col \<Longrightarrow> map Some (dropna col) = col"
proof (induction col)
  case Nil
  then show ?case by (simp add: dropna_def)
next
  case (Cons c col)
  then obtain x where "c = Some x" by (cases c) auto
  then show ?case using Cons by (simp add: dropna_def)
qed

lemma length_value_score_column [simp]: "length (value_score_column col) = length col"
  by (simp add: value_score_column_def Let_def)

lemma create_advanced_features_rows:
  "create_advanced_features df =
     map (\<lambda>c. feature_of c (value_score_of (series_min (map total_spent df))
            (series_max (map total_spent df)) (Some (total_spent c)))) df"
proof -
  have "zip df (map g df) = map (\<lambda>c. (c, g c)) df" for g :: "customer \<Rightarrow> real option"
    by (induction df) simp_all
  then show ?thesis
    by (simp add: create_advanced_features_def value_score_column_def Let_def comp_def)
qed

lemma value_score_of_features:
  "map value_score (create_advanced_features df)
     = value_score_column (map (\<lambda>c. Some (total_spent c)) df)"
  by (simp add: create_advanced_features_rows value_score_column_def Let_def comp_def
      feature_of_def)

lemma constant_iff_Max_eq_Min:
  fixes xs :: "real list"
  assumes "xs \<noteq> []"
  shows "(\<forall>a\<in>set xs. \<forall>b\<in>set xs. a = b) \<longleftrightarrow> Max (set xs) = Min (set xs)"
proof
  have fin: "finite (set xs)" and ne: "set xs \<noteq> {}" using assms by simp_all
  {
    assume "\<forall>a\<in>set xs. \<forall>b\<in>set xs. a = b"
    moreover have "Max (set xs) \<in> set xs" using fin ne by (rule Max_in)
    moreover have "Min (set xs) \<in> set xs" using fin ne by (rule Min_in)
    ultimately show "Max (set xs) = Min (set xs)" by blast
  }
  {
    assume eq: "Max (set xs) = Min (set xs)"
    have one: "t = Min (set xs)" if "t \<in> set xs" for t
    proof -
      have "Min (set xs) \<le> t" using fin that by (rule Min_le)
      moreover have "t \<le> Max (set xs)" using fin that by (rule Max_ge)
      ultimately show ?thesis using eq by linarith
    qed
    show "\<forall>a\<in>set xs. \<forall>b\<in>set xs. a = b"
    proof (intro ballI)
      fix a b assume "a \<in> set xs" "b \<in> set xs"
      then have "a = Min (set xs)" "b = Min (set xs)" by (simp_all only: one)
      then show "a = b" by (simp only:)
    qed
  }
qed

text \<open>The value score of a column of numbers, cell by cell.\<close>

lemma value_score_column_numbers:
  assumes "i < length xs"
  shows "value_score_column (map Some xs) ! i
           = (if Max (set xs) = Min (set xs) then Some 0
              else Some ((xs ! i - Min (set xs)) / (Max (set xs) - Min (set xs))))"
proof -
  have ne: "xs \<noteq> []" using assms by auto
  have d: "dropna (map Some xs) = xs" using dropna_map_Some [of "\<lambda>x. x" xs] by simp
  have "value_score_column (map Some xs) ! i
          = value_score_of (Some (Min (set xs))) (Some (Max (set xs))) (Some (xs ! i))"
    using assms by (simp add: value_score_column_def Let_def d series_min_Some [OF ne]
        series_max_Some [OF ne] del: dropna_map_Some)
  then show ?thesis by (simp add: value_score_of_def np_div_def)
qed


subsection \<open>The example data, evaluated\<close>

lemma ex_features:
  "create_advanced_features ex_customers =
     [feature_of ex_a (Some 0), feature_of ex_b (Some 1), feature_of ex_c (Some (1/2)),
      feature_of ex_d (Some (3/4))]"
  by (simp add: create_advanced_features_rows ex_customers_def value_score_of_def np_div_def
      ex_a_def ex_b_def ex_c_def ex_d_def)


lemma ex_upsell_scores:
  "upsell_score (feature_of ex_a (Some 0)) = Some (6/10)"
  "upsell_score (feature_of ex_b (Some 1)) = Some (909/1460)"
  "upsell_score (feature_of ex_c (Some (1/2))) = Some (557/1825)"
  "upsell_score (feature_of ex_d (Some (3/4))) = Some (1518/1825)"
  by (simp_all add: upsell_score_def feature_of_def as_int_def clip_def
      ex_a_def ex_b_def ex_c_def ex_d_def)


lemma ex_detect:
  "detect_upsell_opportunities_large (create_advanced_features ex_customers)
     = [opportunity_of (feature_of ex_d (Some (3/4))), opportunity_of (feature_of ex_b (Some 1))]"
  by (simp add: detect_upsell_opportunities_large_def ex_features ex_upsell_scores nan_gt_def
      descending_key_def)


subsection \<open>Feature Builder\<close>






subsection \<open>Upsell Detector\<close>

text \<open>
  Claim C10. For every row whose \<^verbatim>\<open>engagement_score\<close> lies in \<open>[0, 100]\<close>, whose
  \<^verbatim>\<open>value_score\<close> is a number in \<open>[0, 1]\<close> and whose \<^verbatim>\<open>recent_activity\<close> flag is 0 or 1, and
  for any \<^verbatim>\<open>days_since_last_purchase\<close>, the upsell score
  \<open>0.3 * engagement / 100 + 0.4 * value_score + 0.2 * recent_activity
  + 0.1 * (1 - clip(days, 0, 365) / 365)\<close> is a number in \<open>[0, 1]\<close>.
\<close>

theorem upsell_score_in_unit_interval:
  assumes "0 \<le> engagement_score r" "engagement_score r \<le> 100"
    and "value_score r = Some v" "0 \<le> v" "v \<le> 1"
    and "recent_activity r = 0 \<or> recent_activity r = 1"
  shows "\<exists>s. upsell_score r = Some s \<and> 0 \<le> s \<and> s \<le> 1"
proof -
  have e: "0 \<le> engagement_score r / 100" "engagement_score r / 100 \<le> 1"
    using assms(1,2) by simp_all
  have ra: "0 \<le> real_of_int (recent_activity r)" "real_of_int (recent_activity r) \<le> 1"
    using assms(6) by auto
  show ?thesis
    unfolding upsell_score_def assms(3)
    using weights_bounded [OF e assms(4,5) ra clip_fraction_bounds]
    by simp
qed



text \<open>The theorem at the feature row of customer \<open>D\<close>.\<close>

theorem upsell_score_in_unit_interval_witness:
  "0 \<le> engagement_score (feature_of ex_d (Some (3/4)))
   \<and> engagement_score (feature_of ex_d (Some (3/4))) \<le> 100
   \<and> value_score (feature_of ex_d (Some (3/4))) = Some (3/4)
   \<and> recent_activity (feature_of ex_d (Some (3/4))) = 1
   \<and> upsell_score (feature_of ex_d (Some (3/4))) = Some (1518/1825)
   \<and> (\<exists>s. upsell_score (feature_of ex_d (Some (3/4))) = Some s \<and> 0 \<le> s \<and> s \<le> 1)"
proof -
  have h: "0 \<le> engagement_score (feature_of ex_d (Some (3/4)))"
    "engagement_score (feature_of ex_d (Some (3/4))) \<le> 100"
    "value_score (feature_of ex_d (Some (3/4))) = Some (3/4)"
    "recent_activity (feature_of ex_d (Some (3/4))) = 1"
    by (simp_all add: feature_of_def ex_d_def as_int_def)
  have "\<exists>s. upsell_score (feature_of ex_d (Some (3/4))) = Some s \<and> 0 \<le> s \<and> s \<le> 1"
    by (rule upsell_score_in_unit_interval [OF h(1) h(2) h(3)]) (simp_all add: h(4))
  then show ?thesis using h ex_upsell_scores(4) by simp
qed


text \<open>
  Claim C6. For every feature table, \<^verbatim>\<open>detect_upsell_opportunities_large\<close> returns one
  opportunity for each row whose upsell score is strictly greater than 0.6 and nothing else
  (as multisets: the rows that pass, each once), listed in non-increasing order of the
  score; every score listed is a number above 0.6.
\<close>

theorem upsell_opportunities_filtered_sorted:
  "mset (detect_upsell_opportunities_large df)
     = mset (map opportunity_of (filter (\<lambda>r. nan_gt (upsell_score r) (Some 0.6)) df))
   \<and> sorted_wrt (\<lambda>a b. \<exists>x y. opp_upsell_score a = Some x \<and> opp_upsell_score b = Some y \<and> x \<ge> y)
        (detect_upsell_opportunities_large df)
   \<and> (\<forall>opp\<in>set (detect_upsell_opportunities_large df).
         \<exists>s. opp_upsell_score opp = Some s \<and> s > 0.6)"
proof -
  define hp where "hp = sort_key descending_key (filter (\<lambda>r. nan_gt (upsell_score r) (Some 0.6)) df)"
  have out: "detect_upsell_opportunities_large df = map opportunity_of hp"
    by (simp add: detect_upsell_opportunities_large_def hp_def)
  have passed: "\<exists>s. upsell_score r = Some s \<and> s > 0.6 \<and> descending_key r = - s"
    if "r \<in> set hp" for r
  proof -
    from that have "nan_gt (upsell_score r) (Some 0.6)" by (simp add: hp_def)
    then show ?thesis by (cases "upsell_score r") (simp_all add: nan_gt_def descending_key_def)
  qed
  have "sorted (map descending_key hp)" unfolding hp_def by (rule sorted_sort_key)
  then have "sorted_wrt (\<lambda>a b. descending_key a \<le> descending_key b) hp"
    by (simp only: sorted_map)
  then have "sorted_wrt (\<lambda>a b. \<exists>x y. upsell_score a = Some x \<and> upsell_score b = Some y \<and> x \<ge> y) hp"
  proof (rule sorted_wrt_mono_rel [rotated])
    fix a b assume "a \<in> set hp" "b \<in> set hp" "descending_key a \<le> descending_key b"
    then show "\<exists>x y. upsell_score a = Some x \<and> upsell_score b = Some y \<and> x \<ge> y"
      using passed [of a] passed [of b] by auto
  qed
  then have srt: "sorted_wrt (\<lambda>a b. \<exists>x y. opp_upsell_score a = Some x \<and> opp_upsell_score b = Some y \<and> x \<ge> y)
        (map opportunity_of hp)"
    by (simp add: sorted_wrt_map opportunity_of_def)
  have ms: "mset (map opportunity_of hp)
     = mset (map opportunity_of (filter (\<lambda>r. nan_gt (upsell_score r) (Some 0.6)) df))"
    by (simp add: hp_def)
  have all: "\<forall>opp\<in>set (map opportunity_of hp). \<exists>s. opp_upsell_score opp = Some s \<and> s > 0.6"
  proof
    fix opp assume "opp \<in> set (map opportunity_of hp)"
    then obtain r where "r \<in> set hp" "opp = opportunity_of r" by auto
    then show "\<exists>s. opp_upsell_score opp = Some s \<and> s > 0.6"
      using passed [of r] by (auto simp: opportunity_of_def)
  qed
  show ?thesis unfolding out using ms srt all by blast
qed

text \<open>
  The theorem at the example customers: \<open>D\<close> and \<open>B\<close> pass, in this order; \<open>A\<close>, whose score
  is exactly 0.6, does not.
\<close>

theorem upsell_opportunities_filtered_sorted_witness:
  "map opp_customer_id (detect_upsell_opportunities_large (create_advanced_features ex_customers))
     = [''D'', ''B'']
   \<and> map opp_upsell_score (detect_upsell_opportunities_large (create_advanced_features ex_customers))
     = [Some (1518/1825), Some (909/1460)]
   \<and> mset (detect_upsell_opportunities_large (create_advanced_features ex_customers))
     = mset (map opportunity_of
         (filter (\<lambda>r. nan_gt (upsell_score r) (Some 0.6)) (create_advanced_features ex_customers)))
   \<and> sorted_wrt (\<lambda>a b. \<exists>x y. opp_upsell_score a = Some x \<and> opp_upsell_score b = Some y \<and> x \<ge> y)
        (detect_upsell_opportunities_large (create_advanced_features ex_customers))
   \<and> (\<exists>s. opp_upsell_score (opportunity_of (feature_of ex_b (Some 1))) = Some s \<and> s > 0.6)"
proof -
  note t = upsell_opportunities_filtered_sorted [of "create_advanced_features ex_customers"]
  have ids: "map opp_customer_id (detect_upsell_opportunities_large (create_advanced_features ex_customers))
     = [''D'', ''B'']"
    by (simp add: ex_detect opportunity_of_def feature_of_def ex_d_def ex_b_def)
  have scs: "map opp_upsell_score (detect_upsell_opportunities_large (create_advanced_features ex_customers))
     = [Some (1518/1825), Some (909/1460)]"
    by (simp add: ex_detect opportunity_of_def ex_upsell_scores)
  have "opportunity_of (feature_of ex_b (Some 1))
          \<in> set (detect_upsell_opportunities_large (create_advanced_features ex_customers))"
    by (simp add: ex_detect)
  with t have "\<exists>s. opp_upsell_score (opportunity_of (feature_of ex_b (Some 1))) = Some s \<and> s > 0.6"
    by blast
  then show ?thesis using t ids scs by blast
qed

subsection \<open>Churn Scorer: batched inference\<close>

lemma length_predict_churn_model [simp]: "length (predict_churn_model m X) = length X"
  by (cases m) simp_all

lemma predict_churn_model_iloc:
  "predict_churn_model m (iloc X s e) = iloc (predict_churn_model m X) s e"
  by (cases m) (simp_all add: iloc_def take_map drop_map min_def)

lemma batch_loop_completes:
  assumes "0 < batch_size"
    and "length probs = length X"
    and "take start probs = take start (predict_churn_model m X)"
  shows "batch_loop m X batch_size start probs = Inr (predict_churn_model m X)"
  using assms
proof (induction m X batch_size start probs rule: batch_loop.induct)
  case (1 m X batch_size start probs)
  let ?P = "predict_churn_model m X"
  let ?n = "length X"
  show ?case
  proof (cases "start < ?n")
    case False
    then have a: "take start probs = probs" and b: "take start ?P = ?P"
      using "1.prems"(2) by simp_all
    have "probs = ?P" using "1.prems"(3) unfolding a b .
    then show ?thesis using False "1.prems"(1) by (subst batch_loop.simps) simp
  next
    case True
    define e where "e = min (start + batch_size) ?n"
    define probs' where "probs' = take start probs @ iloc ?P start e @ drop e probs"
    have e: "start < e" "e \<le> ?n" using True "1.prems"(1) by (simp_all add: e_def)
    have len_slice: "length (iloc ?P start e) = e - start"
      using e by (simp add: iloc_def)
    have assign: "assign_slice probs start e (predict_churn_model m (iloc X start e)) = Inr probs'"
      unfolding predict_churn_model_iloc assign_slice_def probs'_def using len_slice by simp
    have len': "length probs' = ?n"
      using e "1.prems"(2) len_slice by (simp add: probs'_def)
    have "take start ?P @ iloc ?P start e = take e ?P"
    proof -
      have "take e ?P = take (start + (e - start)) ?P" using e by simp
      also have "\<dots> = take start ?P @ take (e - start) (drop start ?P)" by (rule take_add)
      finally show ?thesis by (simp add: iloc_def)
    qed
    then have take_e: "take e probs' = take e ?P"
      using e "1.prems"(2,3) len_slice by (simp add: probs'_def)
    have take': "take (start + batch_size) probs' = take (start + batch_size) ?P"
    proof (cases "start + batch_size \<le> ?n")
      case True
      then have "e = start + batch_size" by (simp add: e_def)
      then show ?thesis using take_e by simp
    next
      case False
      then have "e = ?n" by (simp add: e_def)
      then have "probs' = ?P" using take_e len' by simp
      then show ?thesis by simp
    qed
    have "batch_loop m X batch_size (start + batch_size) probs' = Inr ?P"
      using "1.IH" [OF _ True e_def refl assign "1.prems"(1) len' take'] "1.prems"(1) by simp
    then show ?thesis
      using True "1.prems"(1) assign by (subst batch_loop.simps) (simp add: e_def Let_def)
  qed
qed

lemma ex_predict: "predict_churn_model ex_model ex_matrix = [0.1, 0.5, 1, 0, 0.3]"
  by (simp add: ex_model_def ex_matrix_def)

lemma ex_batches: "predict_in_batches ex_model ex_matrix 2 = Inr [0.1, 0.5, 1, 0, 0.3]"
  unfolding predict_in_batches_def ex_model_def ex_matrix_def
  by (subst batch_loop.simps, simp add: assign_slice_def iloc_def)+

text \<open>
  Claim C3. For every trained model and every feature matrix, scoring the rows in batches
  of a fixed positive size, batch after batch in row order, and writing each batch's output
  into its slice of the result gives, row for row, the output of one call of
  \<^verbatim>\<open>predict_churn_model\<close> on the whole matrix, and the loop raises nothing; in particular for
  the batch size 50000 of the source.
\<close>

theorem batched_inference_transparent:
  "(0 < batch_size \<longrightarrow> predict_in_batches m X batch_size = Inr (predict_churn_model m X))
   \<and> churn_probability m X = Inr (predict_churn_model m X)"
proof (intro conjI impI)
  have start: "take 0 (replicate (length X) (0::real)) = take 0 (predict_churn_model m X)"
    by simp
  have len: "length (replicate (length X) (0::real)) = length X" by simp
  show "predict_in_batches m X batch_size = Inr (predict_churn_model m X)" if "0 < batch_size"
    unfolding predict_in_batches_def using that len start by (rule batch_loop_completes)
  have "(0::nat) < 50000" by simp
  then show "churn_probability m X = Inr (predict_churn_model m X)"
    unfolding churn_probability_def predict_in_batches_def using len start
    by (rule batch_loop_completes)
qed


text \<open>The theorem at five rows scored in batches of two (2 + 2 + 1).\<close>

theorem batched_inference_transparent_witness:
  "(0::nat) < 2
   \<and> predict_in_batches ex_model ex_matrix 2 = Inr (predict_churn_model ex_model ex_matrix)
   \<and> churn_probability ex_model ex_matrix = Inr (predict_churn_model ex_model ex_matrix)
   \<and> predict_churn_model ex_model ex_matrix = [0.1, 0.5, 1, 0, 0.3]"
  using batched_inference_transparent [of 2 ex_model ex_matrix] ex_predict by simp

subsection \<open>Dispatch Controller\<close>

lemma ex_job_id: "str_nat 1700000000 = ''1700000000''" "str_nat 424242 = ''424242''"
  "str_nat (Suc (Suc 0)) = ''2''" "str_nat (Suc (Suc (Suc 0))) = ''3''"
  by (simp_all add: str_nat_def str_nat_onto.simps digit_char_def)


lemma ex_sync:
  "process_customers ex_env ex_world ''u1'' [ex_a, ex_b]
     = (MLResponse True ''Processed successfully''
          (Some (Result (detect_upsell_opportunities_large (create_advanced_features [ex_a, ex_b])) 2)),
        ex_world\<lparr>log := [''Process request: user=u1 rows=2'']\<rparr>)"
  by (simp add: process_customers_def ex_env_def ex_world_def ex_pipeline_def ex_job_id Let_def)

lemma ex_dispatch:
  "process_customers ex_env ex_world ''u1'' [ex_a, ex_b, ex_c]
     = (MLResponse True ''Dispatched background job job_1700000000_424242''
          (Some (Job_id ''job_1700000000_424242'')),
        ex_world\<lparr>tmp_files := [''/tmp/job_1700000000_424242.parquet'' \<mapsto> [ex_a, ex_b, ex_c]],
                 background_tasks := [(''/tmp/job_1700000000_424242.parquet'', ''u1'',
                                       ''job_1700000000_424242'')],
                 log := [''Process request: user=u1 rows=3'',
                         ''Dataset too large (3); dispatched to background job job_1700000000_424242'']\<rparr>)"
  by (simp add: process_customers_def ex_env_def ex_world_def ex_job_id Let_def)

text \<open>
  Claim C8. With a positive configured threshold: a request whose row count equals the
  threshold is processed inline, and when the pipeline returns, the response carries its
  complete result while no file is persisted and no task is scheduled; a request of
  threshold + 1 rows whose input can be persisted gets a response that holds only the job
  id, its input is stored under the job's parquet path, one background task is scheduled
  for it, no result is written, and response and effects are the same whatever the pipeline
  would do: it is not run inline.
\<close>

theorem dispatch_at_threshold:
  assumes "0 < LARGE_THRESHOLD env"
  shows "(int (length customers) = LARGE_THRESHOLD env \<and> pipeline env customers = Inr result
          \<longrightarrow> fst (process_customers env w user_id customers)
                = MLResponse True ''Processed successfully'' (Some (Result result (length customers)))
            \<and> tmp_files (snd (process_customers env w user_id customers)) = tmp_files w
            \<and> background_tasks (snd (process_customers env w user_id customers)) = background_tasks w)
       \<and> (int (length customers) = LARGE_THRESHOLD env + 1 \<and> \<not> to_parquet_fails env
          \<longrightarrow> (\<exists>job_id.
                fst (process_customers env w user_id customers)
                  = MLResponse True (''Dispatched background job '' @ job_id) (Some (Job_id job_id))
              \<and> tmp_files (snd (process_customers env w user_id customers))
                  = (tmp_files w)(''/tmp/'' @ job_id @ ''.parquet'' \<mapsto> customers)
              \<and> background_tasks (snd (process_customers env w user_id customers))
                  = background_tasks w @ [(''/tmp/'' @ job_id @ ''.parquet'', user_id, job_id)]
              \<and> result_files (snd (process_customers env w user_id customers)) = result_files w)
            \<and> (\<forall>other. process_customers (env\<lparr>pipeline := other\<rparr>) w user_id customers
                  = process_customers env w user_id customers))"
proof (intro conjI impI)
  assume a: "int (length customers) = LARGE_THRESHOLD env \<and> pipeline env customers = Inr result"
  then have ne: "customers \<noteq> []" using assms by auto
  show "fst (process_customers env w user_id customers)
          = MLResponse True ''Processed successfully'' (Some (Result result (length customers)))"
    using a ne by (simp add: process_customers_def Let_def)
  show "tmp_files (snd (process_customers env w user_id customers)) = tmp_files w"
    using a ne by (simp add: process_customers_def Let_def)
  show "background_tasks (snd (process_customers env w user_id customers)) = background_tasks w"
    using a ne by (simp add: process_customers_def Let_def)
next
  assume b: "int (length customers) = LARGE_THRESHOLD env + 1 \<and> \<not> to_parquet_fails env"
  then have ne: "customers \<noteq> []" using assms by auto
  define job_id where
    "job_id = ''job_'' @ str_nat (time_now env) @ ''_'' @ str_nat (randint env)"
  have "fst (process_customers env w user_id customers)
          = MLResponse True (''Dispatched background job '' @ job_id) (Some (Job_id job_id))
        \<and> tmp_files (snd (process_customers env w user_id customers))
          = (tmp_files w)(''/tmp/'' @ job_id @ ''.parquet'' \<mapsto> customers)
        \<and> background_tasks (snd (process_customers env w user_id customers))
          = background_tasks w @ [(''/tmp/'' @ job_id @ ''.parquet'', user_id, job_id)]
        \<and> result_files (snd (process_customers env w user_id customers)) = result_files w"
    using b ne by (simp add: process_customers_def Let_def job_id_def)
  then show "\<exists>job_id.
                fst (process_customers env w user_id customers)
                  = MLResponse True (''Dispatched background job '' @ job_id) (Some (Job_id job_id))
              \<and> tmp_files (snd (process_customers env w user_id customers))
                  = (tmp_files w)(''/tmp/'' @ job_id @ ''.parquet'' \<mapsto> customers)
              \<and> background_tasks (snd (process_customers env w user_id customers))
                  = background_tasks w @ [(''/tmp/'' @ job_id @ ''.parquet'', user_id, job_id)]
              \<and> result_files (snd (process_customers env w user_id customers)) = result_files w"
    by (rule exI)
  show "\<forall>other. process_customers (env\<lparr>pipeline := other\<rparr>) w user_id customers
                  = process_customers env w user_id customers"
    using b ne by (simp add: process_customers_def Let_def)
qed


text \<open>The theorem at threshold 2, for requests of two and of three rows.\<close>

theorem dispatch_at_threshold_witness:
  "0 < LARGE_THRESHOLD ex_env
   \<and> int (length [ex_a, ex_b]) = LARGE_THRESHOLD ex_env
   \<and> pipeline ex_env [ex_a, ex_b]
       = Inr (detect_upsell_opportunities_large (create_advanced_features [ex_a, ex_b]))
   \<and> fst (process_customers ex_env ex_world ''u1'' [ex_a, ex_b])
       = MLResponse True ''Processed successfully''
           (Some (Result (detect_upsell_opportunities_large (create_advanced_features [ex_a, ex_b])) 2))
   \<and> background_tasks (snd (process_customers ex_env ex_world ''u1'' [ex_a, ex_b])) = []
   \<and> int (length [ex_a, ex_b, ex_c]) = LARGE_THRESHOLD ex_env + 1
   \<and> \<not> to_parquet_fails ex_env
   \<and> fst (process_customers ex_env ex_world ''u1'' [ex_a, ex_b, ex_c])
       = MLResponse True ''Dispatched background job job_1700000000_424242''
           (Some (Job_id ''job_1700000000_424242''))
   \<and> process_customers (ex_env\<lparr>pipeline := (\<lambda>df. Inl (Exception ''boom''))\<rparr>) ex_world ''u1''
         [ex_a, ex_b, ex_c]
       = process_customers ex_env ex_world ''u1'' [ex_a, ex_b, ex_c]"
proof -
  have h0: "0 < LARGE_THRESHOLD ex_env" by (simp add: ex_env_def)
  have h1: "int (length [ex_a, ex_b]) = LARGE_THRESHOLD ex_env
      \<and> pipeline ex_env [ex_a, ex_b]
          = Inr (detect_upsell_opportunities_large (create_advanced_features [ex_a, ex_b]))"
    by (simp add: ex_env_def ex_pipeline_def)
  have h2: "int (length [ex_a, ex_b, ex_c]) = LARGE_THRESHOLD ex_env + 1 \<and> \<not> to_parquet_fails ex_env"
    by (simp add: ex_env_def)
  note sync = dispatch_at_threshold [OF h0, of "[ex_a, ex_b]"
      "detect_upsell_opportunities_large (create_advanced_features [ex_a, ex_b])" ex_world "''u1''"]
  note disp = dispatch_at_threshold [OF h0, of "[ex_a, ex_b, ex_c]" _ ex_world "''u1''"]
  from sync h1 have s1: "fst (process_customers ex_env ex_world ''u1'' [ex_a, ex_b])
       = MLResponse True ''Processed successfully''
           (Some (Result (detect_upsell_opportunities_large (create_advanced_features [ex_a, ex_b]))
              (length [ex_a, ex_b])))"
    and s2: "background_tasks (snd (process_customers ex_env ex_world ''u1'' [ex_a, ex_b]))
       = background_tasks ex_world"
    by blast+
  from disp h2 have d: "process_customers (ex_env\<lparr>pipeline := (\<lambda>df. Inl (Exception ''boom''))\<rparr>)
         ex_world ''u1'' [ex_a, ex_b, ex_c]
       = process_customers ex_env ex_world ''u1'' [ex_a, ex_b, ex_c]"
    by blast
  have d1: "fst (process_customers ex_env ex_world ''u1'' [ex_a, ex_b, ex_c])
       = MLResponse True ''Dispatched background job job_1700000000_424242''
           (Some (Job_id ''job_1700000000_424242''))"
    by (simp add: ex_dispatch)
  have bt: "background_tasks ex_world = []" by (simp add: ex_world_def)
  have two: "length [ex_a, ex_b] = 2" by simp
  show ?thesis
    using h0 h1 h2 s1 [unfolded two] s2 [unfolded bt] d d1 by blast
qed


text \<open>
  Claim C7, as stated, fails: when \<^verbatim>\<open>os.remove\<close> fails the parquet input stays, and the run
  leaves the same log as one whose deletion succeeded, so the failure is not logged.
\<close>

theorem background_cleanup_counterexample:
  "snd (process_customers_background (ex_env\<lparr>remove_fails := True\<rparr>) ex_job_world
          ''/tmp/job_1.parquet'' ''u1'' ''job_1'')
     = ex_job_world\<lparr>result_files := [''./models/job_1_results.json''
                      \<mapsto> detect_upsell_opportunities_large (create_advanced_features [ex_a, ex_b, ex_d])],
                 log := [''[BG] Starting background job job_1 for user u1'',
                         ''[BG] Job job_1 complete - results saved to ./models/job_1_results.json'']\<rparr>
   \<and> tmp_files (snd (process_customers_background (ex_env\<lparr>remove_fails := True\<rparr>) ex_job_world
          ''/tmp/job_1.parquet'' ''u1'' ''job_1'')) ''/tmp/job_1.parquet'' = Some [ex_a, ex_b, ex_d]
   \<and> log (snd (process_customers_background (ex_env\<lparr>remove_fails := True\<rparr>) ex_job_world
          ''/tmp/job_1.parquet'' ''u1'' ''job_1''))
     = log (snd (process_customers_background ex_env ex_job_world
          ''/tmp/job_1.parquet'' ''u1'' ''job_1''))"
  by (simp add: process_customers_background_def background_body_def ex_env_def ex_job_world_def
      ex_world_def ex_pipeline_def Let_def)


text \<open>
  When processing fails the input stays as well: \<^verbatim>\<open>os.remove\<close> is the last statement inside
  the \<^verbatim>\<open>try\<close>, which the failure leaves early.
\<close>

lemma ex_background_failure:
  "process_customers_background (ex_env\<lparr>pipeline := (\<lambda>df. Inl (Exception ''boom''))\<rparr>) ex_job_world
      ''/tmp/job_1.parquet'' ''u1'' ''job_1''
     = (None,
        ex_job_world\<lparr>log := [''[BG] Starting background job job_1 for user u1'',
                             ''[BG] Job job_1 failed'']\<rparr>)"
  by (simp add: process_customers_background_def background_body_def ex_env_def ex_job_world_def
      ex_world_def Let_def)

lemma background_failure_keeps_input:
  assumes "tmp_files w parquet_path = Some df" "pipeline env df = Inl e"
  shows "tmp_files (snd (process_customers_background env w parquet_path user_id job_id)) parquet_path
           = Some df"
  using assms by (simp add: process_customers_background_def background_body_def Let_def)


lemma ex_background_success:
  "process_customers_background ex_env ex_job_world ''/tmp/job_1.parquet'' ''u1'' ''job_1''
     = (None,
        ex_world\<lparr>result_files := [''./models/job_1_results.json''
                      \<mapsto> detect_upsell_opportunities_large (create_advanced_features [ex_a, ex_b, ex_d])],
                 log := [''[BG] Starting background job job_1 for user u1'',
                         ''[BG] Job job_1 complete - results saved to ./models/job_1_results.json'']\<rparr>)"
  by (simp add: process_customers_background_def background_body_def ex_env_def ex_job_world_def
      ex_world_def ex_pipeline_def Let_def)


text \<open>
  Claim C7, amended. No exception leaves the background task. When the input is read, the
  pipeline returns and the result is written, the result is stored under the job id, the
  parquet input is gone if its deletion succeeds, and the log holds the start and the
  completion line only, whether the deletion succeeded or not (its failure is swallowed
  silently). When reading, processing or writing fails, the failure is logged.
\<close>

theorem background_task_contained:
  "fst (process_customers_background env w parquet_path user_id job_id) = None
   \<and> (tmp_files w parquet_path = Some df \<and> pipeline env df = Inr result \<and> \<not> json_dump_fails env
       \<longrightarrow> result_files (snd (process_customers_background env w parquet_path user_id job_id))
               (''./models/'' @ job_id @ ''_results.json'') = Some result
           \<and> (\<not> remove_fails env
                \<longrightarrow> tmp_files (snd (process_customers_background env w parquet_path user_id job_id))
                      parquet_path = None)
           \<and> log (snd (process_customers_background env w parquet_path user_id job_id))
               = log w @ [''[BG] Starting background job '' @ job_id @ '' for user '' @ user_id,
                          ''[BG] Job '' @ job_id @ '' complete - results saved to ''
                            @ ''./models/'' @ job_id @ ''_results.json''])
   \<and> (tmp_files w parquet_path = None
        \<or> (\<exists>d e. tmp_files w parquet_path = Some d \<and> pipeline env d = Inl e)
        \<or> json_dump_fails env
       \<longrightarrow> log (snd (process_customers_background env w parquet_path user_id job_id))
               = log w @ [''[BG] Starting background job '' @ job_id @ '' for user '' @ user_id,
                          ''[BG] Job '' @ job_id @ '' failed''])"
proof (intro conjI impI)
  show "fst (process_customers_background env w parquet_path user_id job_id) = None"
    by (simp add: process_customers_background_def split: prod.splits option.splits)
next
  assume a: "tmp_files w parquet_path = Some df \<and> pipeline env df = Inr result \<and> \<not> json_dump_fails env"
  then show "result_files (snd (process_customers_background env w parquet_path user_id job_id))
               (''./models/'' @ job_id @ ''_results.json'') = Some result"
    by (simp add: process_customers_background_def background_body_def Let_def)
  from a show "log (snd (process_customers_background env w parquet_path user_id job_id))
               = log w @ [''[BG] Starting background job '' @ job_id @ '' for user '' @ user_id,
                          ''[BG] Job '' @ job_id @ '' complete - results saved to ''
                            @ ''./models/'' @ job_id @ ''_results.json'']"
    by (simp add: process_customers_background_def background_body_def Let_def)
  assume "\<not> remove_fails env"
  with a show "tmp_files (snd (process_customers_background env w parquet_path user_id job_id))
                      parquet_path = None"
    by (simp add: process_customers_background_def background_body_def Let_def)
next
  assume "tmp_files w parquet_path = None
        \<or> (\<exists>d e. tmp_files w parquet_path = Some d \<and> pipeline env d = Inl e)
        \<or> json_dump_fails env"
  then show "log (snd (process_customers_background env w parquet_path user_id job_id))
               = log w @ [''[BG] Starting background job '' @ job_id @ '' for user '' @ user_id,
                          ''[BG] Job '' @ job_id @ '' failed'']"
    by (auto simp: process_customers_background_def background_body_def Let_def
        split: option.splits sum.splits)
qed

text \<open>The theorem at the example job, every step succeeding.\<close>

theorem background_task_contained_witness:
  "tmp_files ex_job_world ''/tmp/job_1.parquet'' = Some [ex_a, ex_b, ex_d]
   \<and> pipeline ex_env [ex_a, ex_b, ex_d]
       = Inr (detect_upsell_opportunities_large (create_advanced_features [ex_a, ex_b, ex_d]))
   \<and> \<not> json_dump_fails ex_env
   \<and> \<not> remove_fails ex_env
   \<and> fst (process_customers_background ex_env ex_job_world ''/tmp/job_1.parquet'' ''u1'' ''job_1'') = None
   \<and> result_files (snd (process_customers_background ex_env ex_job_world ''/tmp/job_1.parquet''
          ''u1'' ''job_1'')) ''./models/job_1_results.json''
       = Some (detect_upsell_opportunities_large (create_advanced_features [ex_a, ex_b, ex_d]))
   \<and> tmp_files (snd (process_customers_background ex_env ex_job_world ''/tmp/job_1.parquet''
          ''u1'' ''job_1'')) ''/tmp/job_1.parquet'' = None
   \<and> log (snd (process_customers_background ex_env ex_job_world ''/tmp/job_1.parquet''
          ''u1'' ''job_1''))
       = [''[BG] Starting background job job_1 for user u1'',
          ''[BG] Job job_1 complete - results saved to ./models/job_1_results.json'']"
proof -
  have h: "tmp_files ex_job_world ''/tmp/job_1.parquet'' = Some [ex_a, ex_b, ex_d]
     \<and> pipeline ex_env [ex_a, ex_b, ex_d]
         = Inr (detect_upsell_opportunities_large (create_advanced_features [ex_a, ex_b, ex_d]))
     \<and> \<not> json_dump_fails ex_env"
    by (simp add: ex_job_world_def ex_world_def ex_env_def ex_pipeline_def)
  have r: "\<not> remove_fails ex_env" by (simp add: ex_env_def)
  have l: "log ex_job_world = []" by (simp add: ex_job_world_def ex_world_def)
  note t = background_task_contained [of ex_env ex_job_world "''/tmp/job_1.parquet''" "''u1''"
      "''job_1''" "[ex_a, ex_b, ex_d]"
      "detect_upsell_opportunities_large (create_advanced_features [ex_a, ex_b, ex_d])"]
  from t h r show ?thesis unfolding l by simp
qed

subsection \<open>Segmentation Engine\<close>

lemma ex_dataset_rows:
  "ex_dataset = [feature_of ex_big (Some 1), feature_of ex_b (Some (100 / 199800)),
                 feature_of ex_c (Some 0)]"
  by (simp add: ex_dataset_def create_advanced_features_rows value_score_of_def np_div_def
      ex_big_def ex_b_def ex_c_def)

lemma ex_dataset_spend [simp]: "map total_spent ex_dataset = [200000, 300, 200]"
  by (simp add: ex_dataset_rows feature_of_def ex_big_def ex_b_def ex_c_def)

lemma ex_quantiles:
  "quantile [200000, 300, 200] 0.7 = Some 80180"
  "quantile [200000, 300, 200] (1 / 2) = Some 300"
  "quantile [200000] 0.7 = Some 200000"
  "quantile [200000] (1 / 2) = Some 200000"
  by (simp_all add: quantile_def Let_def)


lemma ex_rule_based_segments:
  "map get_rule_based_segment ex_dataset = [0, 3, 2]"
  by (simp add: ex_dataset_rows get_rule_based_segment_def feature_of_def ex_big_def ex_b_def ex_c_def)

lemma quantile_Some: "xs \<noteq> [] \<Longrightarrow> \<exists>t. quantile xs q = Some t"
  by (simp add: quantile_def Let_def)


text \<open>
  Claim C4, as stated, fails: the name compares the segment's mean \<^verbatim>\<open>total_spent\<close> to the
  percentiles of the segment's own rows, not to those of the dataset. The large account,
  alone in its segment, has a mean spend far above the dataset's 70th percentile (80180)
  and an engagement of 90, yet it is not above its segment's own 70th percentile.
\<close>

theorem segment_name_dataset_percentiles_counterexample:
  "get_segment_name 0 ex_segment = ''Growth Potential''
   \<and> get_segment_name_dataset_percentiles ex_dataset 0 ex_segment = ''High Value Champions''"
  by (simp add: get_segment_name_def get_segment_name_dataset_percentiles_def ex_segment_def
      ex_quantiles series_mean_def nan_gt_def nan_lt_def feature_of_def ex_big_def Let_def)


text \<open>
  Claim C4, amended. For every non-empty segment, \<^verbatim>\<open>get_segment_name\<close> compares the
  segment's mean \<^verbatim>\<open>total_spent\<close> to the 70th and 50th percentile of \<^verbatim>\<open>total_spent\<close> within the
  segment, and its mean engagement and mean recency to the fixed thresholds (engagement
  80, 60, 40; recency 180 days), in the priority order "High Value Champions", "Loyal
  Customers", "At Risk", else "Growth Potential".
\<close>

theorem segment_name_own_percentiles:
  assumes "segment_data \<noteq> []"
  shows "\<exists>q70 q50.
           quantile (map total_spent segment_data) 0.7 = Some q70
         \<and> quantile (map total_spent segment_data) 0.5 = Some q50
         \<and> get_segment_name segment_id segment_data =
             (let n = real (length segment_data);
                  avg_value = sum_list (map total_spent segment_data) / n;
                  avg_engagement = sum_list (map engagement_score segment_data) / n;
                  avg_recency = sum_list (map (\<lambda>r. real_of_int (days_since_last_purchase r)) segment_data) / n
              in if avg_value > q70 \<and> avg_engagement > 80 then ''High Value Champions''
                 else if avg_value > q50 \<and> avg_engagement > 60 then ''Loyal Customers''
                 else if avg_engagement < 40 \<or> avg_recency > 180 then ''At Risk''
                 else ''Growth Potential'')"
proof -
  from assms have ne: "map total_spent segment_data \<noteq> []" by simp
  obtain q70 where q70: "quantile (map total_spent segment_data) 0.7 = Some q70"
    using quantile_Some [OF ne] by blast
  obtain q50 where q50: "quantile (map total_spent segment_data) 0.5 = Some q50"
    using quantile_Some [OF ne] by blast
  have "get_segment_name segment_id segment_data =
             (let n = real (length segment_data);
                  avg_value = sum_list (map total_spent segment_data) / n;
                  avg_engagement = sum_list (map engagement_score segment_data) / n;
                  avg_recency = sum_list (map (\<lambda>r. real_of_int (days_since_last_purchase r)) segment_data) / n
              in if avg_value > q70 \<and> avg_engagement > 80 then ''High Value Champions''
                 else if avg_value > q50 \<and> avg_engagement > 60 then ''Loyal Customers''
                 else if avg_engagement < 40 \<or> avg_recency > 180 then ''At Risk''
                 else ''Growth Potential'')"
    unfolding get_segment_name_def q70 q50
    using assms by (simp add: series_mean_def nan_gt_def nan_lt_def Let_def)
  with q70 q50 show ?thesis by blast
qed


text \<open>The theorem at the segment of the large account.\<close>

theorem segment_name_own_percentiles_witness:
  "ex_segment \<noteq> []
   \<and> quantile (map total_spent ex_segment) 0.7 = Some 200000
   \<and> quantile (map total_spent ex_segment) 0.5 = Some 200000
   \<and> sum_list (map total_spent ex_segment) / real (length ex_segment) = 200000
   \<and> get_segment_name 0 ex_segment = ''Growth Potential''"
proof -
  have ne: "ex_segment \<noteq> []" by (simp add: ex_segment_def)
  have sp: "map total_spent ex_segment = [200000]"
    by (simp add: ex_segment_def feature_of_def ex_big_def)
  have en: "map engagement_score ex_segment = [90]"
    by (simp add: ex_segment_def feature_of_def ex_big_def)
  have dy: "map (\<lambda>r. real_of_int (days_since_last_purchase r)) ex_segment = [10]"
    by (simp add: ex_segment_def feature_of_def ex_big_def)
  have len: "length ex_segment = 1" by (simp add: ex_segment_def)
  from segment_name_own_percentiles [OF ne, of 0]
  have "get_segment_name 0 ex_segment = ''Growth Potential''"
    unfolding sp en dy len by (simp add: ex_quantiles Let_def)
  then show ?thesis using ne unfolding sp len by (simp add: quantile_def Let_def)
qed

lemma mset_concat_filter_by_key:
  "distinct ks \<Longrightarrow>
   mset (concat (map (\<lambda>k. filter (\<lambda>p. f p = k) ps) ks)) = mset (filter (\<lambda>p. f p \<in> set ks) ps)"
proof (induction ks)
  case Nil
  then show ?case by simp
next
  case (Cons k ks)
  then have k: "k \<notin> set ks" and d: "distinct ks" by simp_all
  have "mset (filter (\<lambda>p. f p \<in> set (k # ks)) ps)
        = mset (filter (\<lambda>p. f p = k) ps) + mset (filter (\<lambda>p. f p \<in> set ks) ps)"
    using k by (induction ps) auto
  then show ?case using Cons.IH [OF d] by simp
qed

lemma rows_of_segments:
  assumes "length labels = length df"
  shows "mset (concat (map (\<lambda>k. map fst (filter (\<lambda>(r, l). l = k) (zip df labels)))
                 (sort (remdups labels)))) = mset df"
proof -
  let ?ps = "zip df labels"
  let ?ks = "sort (remdups labels)"
  have d: "distinct ?ks" by simp
  have all: "filter (\<lambda>p. snd p \<in> set ?ks) ?ps = ?ps"
    by (rule filter_True) (auto dest: set_zip_rightD)
  have "concat (map (\<lambda>k. map fst (filter (\<lambda>(r, l). l = k) ?ps)) ?ks)
        = map fst (concat (map (\<lambda>k. filter (\<lambda>p. snd p = k) ?ps) ?ks))"
    by (simp add: map_concat comp_def case_prod_unfold)
  then have "mset (concat (map (\<lambda>k. map fst (filter (\<lambda>(r, l). l = k) ?ps)) ?ks))
        = image_mset fst (mset (concat (map (\<lambda>k. filter (\<lambda>p. snd p = k) ?ps) ?ks)))"
    by simp
  also have "\<dots> = image_mset fst (mset ?ps)"
    unfolding mset_concat_filter_by_key [OF d] all ..
  also have "\<dots> = mset (map fst ?ps)" by simp
  also have "\<dots> = mset df" using assms by simp
  finally show ?thesis .
qed

lemma customers_of_segments:
  assumes "length labels = length df"
  shows "mset (concat (map seg_customers (map (segment_summary df labels) (sort (remdups labels)))))
           = mset (map customer_id df)"
proof -
  have "concat (map seg_customers (map (segment_summary df labels) ks))
        = map customer_id (concat (map (\<lambda>k. map fst (filter (\<lambda>(r, l). l = k) (zip df labels))) ks))"
    for ks
    by (induction ks) (simp_all add: segment_summary_def Let_def)
  then have "mset (concat (map seg_customers (map (segment_summary df labels) (sort (remdups labels)))))
        = image_mset customer_id (mset (concat (map (\<lambda>k. map fst (filter (\<lambda>(r, l). l = k) (zip df labels)))
                 (sort (remdups labels)))))"
    by (simp only: mset_map)
  then show ?thesis unfolding rows_of_segments [OF assms] by (simp only: mset_map)
qed

lemma counts_of_segments:
  assumes "length labels = length df"
  shows "sum_list (map seg_count (map (segment_summary df labels) (sort (remdups labels))))
           = length df"
proof -
  have "sum_list (map seg_count (map (segment_summary df labels) ks))
        = length (concat (map (\<lambda>k. map fst (filter (\<lambda>(r, l). l = k) (zip df labels))) ks))"
    for ks
    by (induction ks) (simp_all add: segment_summary_def Let_def)
  then have "sum_list (map seg_count (map (segment_summary df labels) (sort (remdups labels))))
        = size (mset (concat (map (\<lambda>k. map fst (filter (\<lambda>(r, l). l = k) (zip df labels)))
                 (sort (remdups labels)))))"
    by (simp only: size_mset)
  then show ?thesis unfolding rows_of_segments [OF assms] by (simp only: size_mset)
qed

lemma distinct_concat_one_block:
  assumes "distinct (concat xss)" "i < length xss" "j < length xss"
    and "x \<in> set (xss ! i)" "x \<in> set (xss ! j)"
  shows "i = j"
  using assms
proof (induction xss arbitrary: i j)
  case Nil
  then show ?case by simp
next
  case (Cons xs xss)
  from Cons.prems(1) have d: "distinct (concat xss)"
    and disj: "set xs \<inter> set (concat xss) = {}" by simp_all
  have later: "x \<in> set (concat xss)" if "k < length xss" "x \<in> set (xss ! k)" for k
  proof -
    have "xss ! k \<in> set xss" using that(1) by (rule nth_mem)
    then show ?thesis using that(2) by auto
  qed
  show ?case
  proof (cases i)
    case i0: 0
    show ?thesis
    proof (cases j)
      case 0
      then show ?thesis using i0 by simp
    next
      case (Suc j')
      have "x \<in> set xs" using Cons.prems(4) i0 by simp
      moreover have "x \<in> set (concat xss)"
        using later [of j'] Cons.prems(3,5) Suc by simp
      ultimately show ?thesis using disj by blast
    qed
  next
    case si: (Suc i')
    show ?thesis
    proof (cases j)
      case 0
      have "x \<in> set xs" using Cons.prems(5) 0 by simp
      moreover have "x \<in> set (concat xss)"
        using later [of i'] Cons.prems(2,4) si by simp
      ultimately show ?thesis using disj by blast
    next
      case (Suc j')
      have "i' = j'"
        using Cons.IH [OF d, of i' j'] Cons.prems(2,3,4,5) si Suc by simp
      then show ?thesis using si Suc by simp
    qed
  qed
qed

text \<open>
  Without scikit-learn the function raises before it reaches the rule-based branch, although
  that branch lists the missing library among its conditions.
\<close>

lemma segmentation_without_sklearn:
  "perform_customer_segmentation_large False fit_predict df force_rule_based = Inl NameError"
  by (simp add: perform_customer_segmentation_large_def)

lemma segmentation_labels:
  assumes "sklearn_available" "df \<noteq> []"
    and "length df < 50 \<or> force_rule_based \<or> length (fit_predict df) = length df"
  shows "\<exists>labels. length labels = length df
     \<and> perform_customer_segmentation_large sklearn_available fit_predict df force_rule_based
         = Inr (map (segment_summary df labels) (sort (remdups labels)))"
proof (cases "length df < 50 \<or> force_rule_based")
  case True
  then have "perform_customer_segmentation_large sklearn_available fit_predict df force_rule_based
         = Inr (map (segment_summary df (map get_rule_based_segment df))
                  (sort (remdups (map get_rule_based_segment df))))"
    using assms(1,2) by (simp add: perform_customer_segmentation_large_def Let_def)
  then show ?thesis by (intro exI [of _ "map get_rule_based_segment df"]) simp
next
  case False
  then have len: "length (fit_predict df) = length df" using assms(3) by blast
  have "perform_customer_segmentation_large sklearn_available fit_predict df force_rule_based
         = Inr (map (segment_summary df (fit_predict df)) (sort (remdups (fit_predict df))))"
    using assms(1,2) False len by (simp add: perform_customer_segmentation_large_def Let_def)
  then show ?thesis using len by (intro exI [of _ "fit_predict df"]) simp
qed


text \<open>
  Claim C2. With scikit-learn available and a non-empty input, on the rule-based path (fewer
  than 50 rows, or forced) and on the clustering path (the clusterer giving one label per
  row), \<^verbatim>\<open>perform_customer_segmentation_large\<close> returns segments whose member lists together
  hold the input's \<^verbatim>\<open>customer_id\<close> column exactly, every row's id once (no omission, no
  duplicate), and whose counts add up to the number of rows. When the input's ids are
  pairwise distinct, no id is listed twice and every input id is in the member list of
  exactly one segment.
\<close>

theorem segments_partition_customers:
  assumes "sklearn_available" "df \<noteq> []"
    and "length df < 50 \<or> force_rule_based \<or> length (fit_predict df) = length df"
  shows "\<exists>segments.
      perform_customer_segmentation_large sklearn_available fit_predict df force_rule_based
        = Inr segments
    \<and> mset (concat (map seg_customers segments)) = mset (map customer_id df)
    \<and> sum_list (map seg_count segments) = length df
    \<and> (distinct (map customer_id df) \<longrightarrow>
         distinct (concat (map seg_customers segments))
       \<and> (\<forall>c\<in>set df. \<exists>!i. i < length segments \<and> customer_id c \<in> set (seg_customers (segments ! i))))"
proof -
  obtain labels where len: "length labels = length df"
    and run: "perform_customer_segmentation_large sklearn_available fit_predict df force_rule_based
         = Inr (map (segment_summary df labels) (sort (remdups labels)))"
    using segmentation_labels [of sklearn_available df force_rule_based fit_predict] assms by blast
  define segments where "segments = map (segment_summary df labels) (sort (remdups labels))"
  have ms: "mset (concat (map seg_customers segments)) = mset (map customer_id df)"
    unfolding segments_def by (rule customers_of_segments [OF len])
  have cnt: "sum_list (map seg_count segments) = length df"
    unfolding segments_def by (rule counts_of_segments [OF len])
  have uniq: "distinct (concat (map seg_customers segments))
       \<and> (\<forall>c\<in>set df. \<exists>!i. i < length segments \<and> customer_id c \<in> set (seg_customers (segments ! i)))"
    if dist: "distinct (map customer_id df)"
  proof
    show dc: "distinct (concat (map seg_customers segments))"
      using ms dist by (metis mset_eq_imp_distinct_iff)
    show "\<forall>c\<in>set df. \<exists>!i. i < length segments \<and> customer_id c \<in> set (seg_customers (segments ! i))"
    proof
      fix c assume c: "c \<in> set df"
      then have "customer_id c \<in> set (map customer_id df)" by simp
      then have "customer_id c \<in> set (concat (map seg_customers segments))"
        using ms by (metis mset_eq_setD)
      then obtain s where s: "s \<in> set segments" "customer_id c \<in> set (seg_customers s)" by auto
      then obtain i where i: "i < length segments" "segments ! i = s"
        by (auto simp: in_set_conv_nth)
      show "\<exists>!i. i < length segments \<and> customer_id c \<in> set (seg_customers (segments ! i))"
      proof (rule ex1I [of _ i])
        show "i < length segments \<and> customer_id c \<in> set (seg_customers (segments ! i))"
          using i s by simp
      next
        fix j assume j: "j < length segments \<and> customer_id c \<in> set (seg_customers (segments ! j))"
        show "j = i"
          by (rule distinct_concat_one_block [OF dc, of j i "customer_id c"])
            (use i j s in simp_all)
      qed
    qed
  qed
  have run': "perform_customer_segmentation_large sklearn_available fit_predict df force_rule_based
         = Inr segments"
    unfolding segments_def by (rule run)
  show ?thesis
  proof (intro exI [of _ segments] conjI impI)
    show "perform_customer_segmentation_large sklearn_available fit_predict df force_rule_based
         = Inr segments" by (rule run')
    show "mset (concat (map seg_customers segments)) = mset (map customer_id df)" by (rule ms)
    show "sum_list (map seg_count segments) = length df" by (rule cnt)
    assume d: "distinct (map customer_id df)"
    show "distinct (concat (map seg_customers segments))" using uniq [OF d] by (rule conjunct1)
    show "\<forall>c\<in>set df. \<exists>!i. i < length segments \<and> customer_id c \<in> set (seg_customers (segments ! i))"
      using uniq [OF d] by (rule conjunct2)
  qed
qed

lemma ex_segmentation:
  "perform_customer_segmentation_large True (\<lambda>df. []) ex_dataset False
     = Inr (map (segment_summary ex_dataset [0, 3, 2]) [0, 2, 3])"
  by (simp add: perform_customer_segmentation_large_def ex_rule_based_segments Let_def)
     (simp add: ex_dataset_rows)

lemma ex_segment_customers:
  "map seg_customers (map (segment_summary ex_dataset [0, 3, 2]) [0, 2, 3])
     = [[''BIG''], [''C''], [''B'']]"
  by (simp add: segment_summary_def ex_dataset_rows Let_def feature_of_def ex_big_def ex_b_def ex_c_def)

lemma ex_segment_names:
  "map seg_name (map (segment_summary ex_dataset [0, 3, 2]) [0, 2, 3])
     = [''Growth Potential'', ''At Risk'', ''Growth Potential'']"
  by (simp add: segment_summary_def ex_dataset_rows Let_def get_segment_name_def series_mean_def
      nan_gt_def nan_lt_def quantile_def feature_of_def ex_big_def ex_b_def ex_c_def)


text \<open>The theorem at the three-customer dataset, on the rule-based path.\<close>

theorem segments_partition_customers_witness:
  "ex_dataset \<noteq> []
   \<and> length ex_dataset < 50
   \<and> distinct (map customer_id ex_dataset)
   \<and> (\<exists>segments.
        perform_customer_segmentation_large True (\<lambda>df. []) ex_dataset False = Inr segments
      \<and> map seg_customers segments = [[''BIG''], [''C''], [''B'']]
      \<and> mset (concat (map seg_customers segments)) = mset (map customer_id ex_dataset)
      \<and> sum_list (map seg_count segments) = length ex_dataset
      \<and> distinct (concat (map seg_customers segments)))"
proof -
  have ne: "ex_dataset \<noteq> []" by (simp add: ex_dataset_rows)
  have small: "length ex_dataset < 50" by (simp add: ex_dataset_rows)
  have ids: "map customer_id ex_dataset = [''BIG'', ''B'', ''C'']"
    by (simp add: ex_dataset_rows feature_of_def ex_big_def ex_b_def ex_c_def)
  have dist: "distinct (map customer_id ex_dataset)" unfolding ids by simp
  have "\<exists>segments.
      perform_customer_segmentation_large True (\<lambda>df. []) ex_dataset False = Inr segments
    \<and> mset (concat (map seg_customers segments)) = mset (map customer_id ex_dataset)
    \<and> sum_list (map seg_count segments) = length ex_dataset
    \<and> (distinct (map customer_id ex_dataset) \<longrightarrow>
         distinct (concat (map seg_customers segments))
       \<and> (\<forall>c\<in>set ex_dataset. \<exists>!i. i < length segments
             \<and> customer_id c \<in> set (seg_customers (segments ! i))))"
    by (rule segments_partition_customers) (simp_all add: ne small)
  then obtain segments where
      run: "perform_customer_segmentation_large True (\<lambda>df. []) ex_dataset False = Inr segments"
    and ms: "mset (concat (map seg_customers segments)) = mset (map customer_id ex_dataset)"
    and cnt: "sum_list (map seg_count segments) = length ex_dataset"
    and d: "distinct (map customer_id ex_dataset) \<longrightarrow>
         distinct (concat (map seg_customers segments))
       \<and> (\<forall>c\<in>set ex_dataset. \<exists>!i. i < length segments
             \<and> customer_id c \<in> set (seg_customers (segments ! i)))"
    by (elim exE conjE)
  from run have "segments = map (segment_summary ex_dataset [0, 3, 2]) [0, 2, 3]"
    unfolding ex_segmentation by simp
  then have cs: "map seg_customers segments = [[''BIG''], [''C''], [''B'']]"
    by (simp only: ex_segment_customers)
  from d dist have dc: "distinct (concat (map seg_customers segments))" by (elim impE conjE)
  show ?thesis
    by (intro conjI exI [of _ segments]) (fact ne small dist run cs ms cnt dc)+
qed

subsection \<open>Churn Scorer: label generation\<close>

text \<open>
  The exponent search on the range of the score's terms, the weights as doubles, and the
  sixteen values that the rounded sum of a row can take.
\<close>

lemma binade_steps:
  "1 \<le> x \<Longrightarrow> x < 2 \<Longrightarrow> binade (Suc n) x = 0"
  "1 / 2 \<le> x \<Longrightarrow> x < 1 \<Longrightarrow> binade (Suc (Suc n)) x = - 1"
  "1 / 4 \<le> x \<Longrightarrow> x < 1 / 2 \<Longrightarrow> binade (Suc (Suc (Suc n))) x = - 2"
  "1 / 8 \<le> x \<Longrightarrow> x < 1 / 4 \<Longrightarrow> binade (Suc (Suc (Suc (Suc n)))) x = - 3"
  "1 / 16 \<le> x \<Longrightarrow> x < 1 / 8 \<Longrightarrow> binade (Suc (Suc (Suc (Suc (Suc n))))) x = - 4"
  by simp_all

lemma binade_2200:
  "1 \<le> x \<Longrightarrow> x < 2 \<Longrightarrow> binade 2200 x = 0"
  "1 / 2 \<le> x \<Longrightarrow> x < 1 \<Longrightarrow> binade 2200 x = - 1"
  "1 / 4 \<le> x \<Longrightarrow> x < 1 / 2 \<Longrightarrow> binade 2200 x = - 2"
  "1 / 8 \<le> x \<Longrightarrow> x < 1 / 4 \<Longrightarrow> binade 2200 x = - 3"
  "1 / 16 \<le> x \<Longrightarrow> x < 1 / 8 \<Longrightarrow> binade 2200 x = - 4"
proof -
  have fuel: "(2200::nat) = Suc (Suc (Suc (Suc (Suc 2195))))" by simp
  show "1 \<le> x \<Longrightarrow> x < 2 \<Longrightarrow> binade 2200 x = 0"
    by (subst fuel) (rule binade_steps)
  show "1 / 2 \<le> x \<Longrightarrow> x < 1 \<Longrightarrow> binade 2200 x = - 1"
    by (subst fuel) (rule binade_steps)
  show "1 / 4 \<le> x \<Longrightarrow> x < 1 / 2 \<Longrightarrow> binade 2200 x = - 2"
    by (subst fuel) (rule binade_steps)
  show "1 / 8 \<le> x \<Longrightarrow> x < 1 / 4 \<Longrightarrow> binade 2200 x = - 3"
    by (subst fuel) (rule binade_steps)
  show "1 / 16 \<le> x \<Longrightarrow> x < 1 / 8 \<Longrightarrow> binade 2200 x = - 4"
    by (subst fuel) (rule binade_steps)
qed

lemmas round_double_eval = round_double_def ulp_def binade_2200 round_half_even_def Let_def

lemma weight_literals:
  "round_double (2 / 5) = 3602879701896397 / 9007199254740992"
  "round_double (3 / 10) = 5404319552844595 / 18014398509481984"
  "round_double (1 / 5) = 3602879701896397 / 18014398509481984"
  "round_double (1 / 10) = 3602879701896397 / 36028797018963968"
  by (simp_all add: round_double_eval)

lemma fl_mul_flag:
  "fl_mul 0 w = 0"
  "fl_mul 1 (3602879701896397 / 9007199254740992) = 3602879701896397 / 9007199254740992"
  "fl_mul 1 (5404319552844595 / 18014398509481984) = 5404319552844595 / 18014398509481984"
  "fl_mul 1 (3602879701896397 / 18014398509481984) = 3602879701896397 / 18014398509481984"
  "fl_mul 1 (3602879701896397 / 36028797018963968) = 3602879701896397 / 36028797018963968"
  by (simp_all add: fl_mul_def round_double_eval)

text \<open>
  The double sums of lines 246-251. With every indicator set,
  \<^verbatim>\<open>0.4 + 0.3 + 0.2 + 0.1\<close> is \<^verbatim>\<open>0.9999999999999999\<close>, one unit in the last place below 1.
\<close>

lemma churn_score_row_values:
  "churn_score_row True True True True = 9007199254740991 / 9007199254740992"
  "churn_score_row True True True False = 2026619832316723 / 2251799813685248"
  "churn_score_row True True False True = 7205759403792793 / 9007199254740992"
  "churn_score_row True True False False = 3152519739159347 / 4503599627370496"
  "churn_score_row True False True True = 6305039478318695 / 9007199254740992"
  "churn_score_row True False True False = 1351079888211149 / 2251799813685248"
  "churn_score_row True False False True = 1 / 2"
  "churn_score_row True False False False = 3602879701896397 / 9007199254740992"
  "churn_score_row False True True True = 5404319552844595 / 9007199254740992"
  "churn_score_row False True True False = 1 / 2"
  "churn_score_row False True False True = 3602879701896397 / 9007199254740992"
  "churn_score_row False True False False = 5404319552844595 / 18014398509481984"
  "churn_score_row False False True True = 1351079888211149 / 4503599627370496"
  "churn_score_row False False True False = 3602879701896397 / 18014398509481984"
  "churn_score_row False False False True = 3602879701896397 / 36028797018963968"
  "churn_score_row False False False False = 0"
  by (simp_all add: churn_score_row_def as_int_def weight_literals fl_mul_flag fl_add_def
      round_double_eval)

lemma churn_score_row_le_top:
  "churn_score_row a b c d \<le> 9007199254740991 / 9007199254740992"
  by (cases a; cases b; cases c; cases d) (simp_all add: churn_score_row_values)

lemma churn_score_row_below_top:
  "churn_score_row a b c False < 9007199254740991 / 9007199254740992"
  by (cases a; cases b; cases c) (simp_all add: churn_score_row_values)

lemma ex_single_row_score: "churn_score [feature_of ex_a (Some 0)] = [0]"
  by (simp add: churn_score_def quantile_def nan_lt_def nan_gt_def feature_of_def
      ex_a_def Let_def churn_score_row_values)


lemma ex_dataset_scores:
  "churn_score ex_dataset = [0, 0, 9007199254740991 / 9007199254740992]"
  by (simp add: churn_score_def ex_dataset_rows quantile_def nan_lt_def nan_gt_def
      feature_of_def ex_big_def ex_b_def ex_c_def Let_def churn_score_row_values)

lemma ex_dataset_labels: "churn_label ex_dataset = [0, 0, 1]"
  by (simp add: churn_label_def ex_dataset_scores quantile_def nan_ge_def as_int_def
      nsmallest_index_def nlargest_index_def loc_assign_def Let_def)

lemma ex_identical_labels:
  "churn_label [feature_of ex_a (Some 0), feature_of ex_a (Some 0), feature_of ex_a (Some 0)]
     = [0, 1, 1]"
  by (simp add: churn_label_def churn_score_def quantile_def nan_lt_def nan_gt_def nan_ge_def
      as_int_def nsmallest_index_def nlargest_index_def loc_assign_def Let_def feature_of_def
      ex_a_def churn_score_row_values)

lemma quantile_between:
  assumes "xs \<noteq> []" "0 \<le> q" "q \<le> 1"
  defines "lo \<equiv> nat \<lfloor>q * real (length xs - 1)\<rfloor>"
  defines "hi \<equiv> min (lo + 1) (length xs - 1)"
  shows "\<exists>t. quantile xs q = Some t \<and> sort xs ! lo \<le> t \<and> t \<le> sort xs ! hi"
    and "lo \<le> hi" and "hi < length xs" and "real lo \<le> q * real (length xs - 1)"
proof -
  define pos where "pos = q * real (length xs - 1)"
  define frac where "frac = pos - real lo"
  have n: "0 < length xs" using assms(1) by simp
  have pos0: "0 \<le> pos" using assms(2) by (simp add: pos_def)
  have "q * real (length xs - 1) \<le> 1 * real (length xs - 1)"
    using assms(3) by (intro mult_right_mono) simp_all
  then have pos1: "pos \<le> real (length xs - 1)"
    unfolding pos_def by simp
  have lo_eq: "real lo = of_int \<lfloor>pos\<rfloor>"
    unfolding lo_def pos_def [symmetric] using pos0 by simp
  have frac0: "0 \<le> frac" unfolding frac_def lo_eq by linarith
  have frac1: "frac \<le> 1" unfolding frac_def lo_eq by linarith
  show lo_pos: "real lo \<le> q * real (length xs - 1)"
    unfolding pos_def [symmetric] lo_eq by linarith
  have "real lo \<le> real (length xs - 1)" using lo_pos pos1 unfolding pos_def by linarith
  then have lo_le: "lo \<le> length xs - 1" by simp
  show lohi: "lo \<le> hi" unfolding hi_def using lo_le by simp
  have "min (lo + 1) (length xs - 1) \<le> length xs - 1" by (rule min.cobounded2)
  then show hin: "hi < length xs" unfolding hi_def using n by linarith
  have "sorted (sort xs)" by simp
  then have mono: "sort xs ! lo \<le> sort xs ! hi"
    using lohi hin by (simp add: sorted_nth_mono)
  define a where "a = sort xs ! lo"
  define b where "b = sort xs ! hi"
  have ab: "a \<le> b" using mono by (simp add: a_def b_def)
  have q: "quantile xs q = Some (a + (b - a) * frac)"
    using assms(1)
    by (simp add: quantile_def Let_def a_def b_def frac_def pos_def lo_def hi_def)
  have "0 \<le> (b - a) * frac" using ab frac0 by simp
  then have l: "a \<le> a + (b - a) * frac" by simp
  have "(b - a) * frac \<le> (b - a) * 1" using ab frac1 by (intro mult_left_mono) simp_all
  then have u: "a + (b - a) * frac \<le> b" by simp
  show "\<exists>t. quantile xs q = Some t \<and> sort xs ! lo \<le> t \<and> t \<le> sort xs ! hi"
    using q l u unfolding a_def b_def by blast
qed

lemma quantile_le_Max:
  assumes "xs \<noteq> []" "0 \<le> q" "q \<le> 1"
  shows "\<exists>t. quantile xs q = Some t \<and> t \<le> Max (set xs)"
proof -
  define hi where "hi = min (nat \<lfloor>q * real (length xs - 1)\<rfloor> + 1) (length xs - 1)"
  obtain t where t: "quantile xs q = Some t" "t \<le> sort xs ! hi"
    using quantile_between(1) [OF assms] unfolding hi_def by blast
  have "hi < length (sort xs)" using quantile_between(3) [OF assms] unfolding hi_def by simp
  then have "sort xs ! hi \<in> set (sort xs)" by (rule nth_mem)
  then have "sort xs ! hi \<in> set xs" by simp
  then have "sort xs ! hi \<le> Max (set xs)" by simp
  with t show ?thesis by (intro exI [of _ t]) simp
qed

lemma length_loc_assign [simp]: "length (loc_assign idx v col) = length col"
  unfolding loc_assign_def by (induction idx arbitrary: col) simp_all

lemma nth_loc_assign:
  "i < length col \<Longrightarrow> loc_assign idx v col ! i = (if i \<in> set idx then v else col ! i)"
  unfolding loc_assign_def
proof (induction idx arbitrary: col)
  case Nil
  then show ?case by simp
next
  case (Cons j idx)
  have "fold (\<lambda>i c. c[i := v]) idx (col[j := v]) ! i
        = (if i \<in> set idx then v else col[j := v] ! i)"
    using Cons.IH [of "col[j := v]"] Cons.prems by simp
  then show ?case using Cons.prems by (auto simp: nth_list_update)
qed

lemma sum_list_flags:
  fixes l :: "int list"
  assumes "\<forall>x\<in>set l. x = 0 \<or> x = 1"
  shows "0 \<le> sum_list l" and "sum_list l \<le> int (length l)"
    and "sum_list l = 0 \<longleftrightarrow> (\<forall>x\<in>set l. x = 0)"
    and "sum_list l = int (length l) \<longleftrightarrow> (\<forall>x\<in>set l. x = 1)"
  using assms by (induction l) auto

lemma length_churn_score [simp]: "length (churn_score df) = length df"
  by (simp add: churn_score_def Let_def)

lemma nsmallest_index_props:
  shows "set (nsmallest_index k xs) \<subseteq> {0..<length xs}"
    and "distinct (nsmallest_index k xs)"
    and "length (nsmallest_index k xs) = min k (length xs)"
proof -
  let ?s = "sort_key (\<lambda>i. xs ! i) [0..<length xs]"
  have "set (take k ?s) \<subseteq> set ?s" by (rule set_take_subset)
  then show "set (nsmallest_index k xs) \<subseteq> {0..<length xs}"
    by (simp add: nsmallest_index_def)
  have "distinct ?s" by simp
  then show "distinct (nsmallest_index k xs)"
    unfolding nsmallest_index_def by (rule distinct_take)
  show "length (nsmallest_index k xs) = min k (length xs)"
    by (simp add: nsmallest_index_def min.commute)
qed

text \<open>The three stages of the label column.\<close>

lemma churn_label_stages:
  fixes df :: "feature_row list"
  defines "cs \<equiv> churn_score df"
  defines "l0 \<equiv> map (\<lambda>s. as_int (nan_ge (Some s) (quantile cs 0.7))) cs"
  defines "l1 \<equiv> (if sum_list l0 = 0
                then loc_assign (nlargest_index (max 1 (length df div 20)) cs) 1 l0 else l0)"
  shows "churn_label df =
           (if sum_list l1 = int (length df)
            then loc_assign (nsmallest_index (max 1 (length df div 20)) cs) 0 l1 else l1)"
  by (simp add: churn_label_def Let_def cs_def l0_def l1_def)

lemma threshold_flags:
  "\<forall>x\<in>set (map (\<lambda>s. as_int (nan_ge (Some s) thr)) cs). x = 0 \<or> x = 1"
  by (auto simp: as_int_def)

lemma max_row_labelled:
  assumes "cs \<noteq> []"
  shows "\<exists>i<length cs. cs ! i = Max (set cs)
           \<and> map (\<lambda>s. as_int (nan_ge (Some s) (quantile cs 0.7))) cs ! i = 1"
proof -
  obtain t where t: "quantile cs 0.7 = Some t" "t \<le> Max (set cs)"
    using quantile_le_Max [OF assms, of "0.7"] by auto
  have "Max (set cs) \<in> set cs" using assms by (intro Max_in) simp_all
  then obtain i where i: "i < length cs" "cs ! i = Max (set cs)"
    by (auto simp: in_set_conv_nth)
  have "map (\<lambda>s. as_int (nan_ge (Some s) (quantile cs 0.7))) cs ! i = 1"
    using i t by (simp add: nan_ge_def as_int_def)
  with i show ?thesis by blast
qed


text \<open>
  Claim C1, as stated, fails on a dataset of a single row: its one label is first set to 1
  by the threshold and then forced to 0 by the second step, so the target has one class
  (with one row it cannot have two).
\<close>

theorem single_row_single_class_counterexample:
  "churn_label [feature_of ex_a (Some 0)] = [0]"
  by (simp add: churn_label_def ex_single_row_score quantile_def nan_ge_def as_int_def
      nsmallest_index_def nlargest_index_def loc_assign_def Let_def)


text \<open>
  Claim C1, amended. For every dataset of at least two rows, churn-label generation
  (composite score, threshold at the score's own 70th percentile, then the two steps that
  force variety) gives one label per row, each 0 or 1, with at least one row labelled 1 and
  at least one row labelled 0, for any input distribution, all-identical rows included.
\<close>

theorem churn_label_two_classes:
  assumes "2 \<le> length df"
  shows "1 \<in> set (churn_label df) \<and> 0 \<in> set (churn_label df)
         \<and> length (churn_label df) = length df
         \<and> (\<forall>x\<in>set (churn_label df). x = 0 \<or> x = 1)"
proof -
  define n where "n = length df"
  define cs where "cs = churn_score df"
  define l0 where "l0 = map (\<lambda>s. as_int (nan_ge (Some s) (quantile cs 0.7))) cs"
  define k where "k = max 1 (n div 20)"
  define idx where "idx = nsmallest_index k cs"
  have len_cs: "length cs = n" by (simp add: cs_def n_def)
  have len0: "length l0 = n" by (simp add: l0_def len_cs)
  have n2: "2 \<le> n" using assms by (simp add: n_def)
  have flags0: "\<forall>x\<in>set l0. x = 0 \<or> x = 1" unfolding l0_def by (rule threshold_flags)
  have "cs \<noteq> []" using len_cs n2 by auto
  then obtain i where i: "i < n" "l0 ! i = 1"
    using max_row_labelled [of cs] unfolding l0_def len_cs by blast
  then have one0: "1 \<in> set l0" using len0 by (metis nth_mem)
  then have "\<not> (\<forall>x\<in>set l0. x = 0)" by force
  then have nz: "sum_list l0 \<noteq> 0" using sum_list_flags(3) [OF flags0] by simp
  have stage: "churn_label df =
      (if sum_list l0 = int n then loc_assign idx 0 l0 else l0)"
    using churn_label_stages [of df] nz
    unfolding cs_def [symmetric] l0_def [symmetric] n_def [symmetric] k_def [symmetric]
      idx_def [symmetric]
    by simp
  show ?thesis
  proof (cases "sum_list l0 = int n")
    case False
    then have lab: "churn_label df = l0" using stage by simp
    have "\<not> (\<forall>x\<in>set l0. x = 1)"
      using False sum_list_flags(4) [OF flags0] len0 by simp
    then have "0 \<in> set l0" using flags0 by auto
    then show ?thesis unfolding lab using one0 len0 flags0 n_def by simp
  next
    case True
    then have lab: "churn_label df = loc_assign idx 0 l0" using stage by simp
    have all1: "\<forall>x\<in>set l0. x = 1"
      using True sum_list_flags(4) [OF flags0] len0 by simp
    have k: "1 \<le> k" "k < n" using n2 unfolding k_def by auto
    have idx_sub: "set idx \<subseteq> {0..<n}"
      using nsmallest_index_props(1) [of k cs] by (simp add: idx_def len_cs)
    have idx_len: "length idx = k"
      using nsmallest_index_props(3) [of k cs] k by (simp add: idx_def len_cs)
    have "idx \<noteq> []" using idx_len k by auto
    then obtain j where j: "j \<in> set idx" by (cases idx) auto
    then have jn: "j < n" using idx_sub by auto
    have "loc_assign idx 0 l0 ! j = 0" using nth_loc_assign [of j l0 idx 0] j jn len0 by simp
    then have zero: "0 \<in> set (loc_assign idx 0 l0)"
      using jn len0 by (metis length_loc_assign nth_mem)
    have "card (set idx) \<le> length idx" by (rule card_length)
    then have "card (set idx) < card {0..<n}" using idx_len k by simp
    then have neq: "set idx \<noteq> {0..<n}" by auto
    have "\<exists>m. m < n \<and> m \<notin> set idx"
    proof (rule ccontr)
      assume "\<not> (\<exists>m. m < n \<and> m \<notin> set idx)"
      then have "{0..<n} \<subseteq> set idx" by auto
      with idx_sub have "set idx = {0..<n}" by (rule subset_antisym)
      with neq show False by contradiction
    qed
    then obtain m where m: "m < n" "m \<notin> set idx" by blast
    have "l0 ! m = 1" using all1 m(1) len0 by simp
    then have "loc_assign idx 0 l0 ! m = 1"
      using nth_loc_assign [of m l0 idx 0] m len0 by simp
    then have one: "1 \<in> set (loc_assign idx 0 l0)"
      using m(1) len0 by (metis length_loc_assign nth_mem)
    have flags: "\<forall>x\<in>set (loc_assign idx 0 l0). x = 0 \<or> x = 1"
    proof
      fix x assume "x \<in> set (loc_assign idx 0 l0)"
      then obtain p where p: "p < n" "x = loc_assign idx 0 l0 ! p"
        using len0 by (auto simp: in_set_conv_nth)
      then show "x = 0 \<or> x = 1"
        using nth_loc_assign [of p l0 idx 0] all1 len0 by (cases "p \<in> set idx") simp_all
    qed
    show ?thesis unfolding lab using one zero flags len0 n_def by simp
  qed
qed


text \<open>The theorem at the three-customer dataset.\<close>

theorem churn_label_two_classes_witness:
  "2 \<le> length ex_dataset \<and> churn_label ex_dataset = [0, 0, 1]
   \<and> 1 \<in> set (churn_label ex_dataset) \<and> 0 \<in> set (churn_label ex_dataset)
   \<and> length (churn_label ex_dataset) = length ex_dataset"
proof -
  have h: "2 \<le> length ex_dataset" by (simp add: ex_dataset_rows)
  from churn_label_two_classes [OF h] show ?thesis using h ex_dataset_labels by simp
qed

subsection \<open>Churn Scorer: the row with every risk indicator\<close>

lemma length_filter_mset_cong:
  "mset xs = mset ys \<Longrightarrow> length (filter P xs) = length (filter P ys)"
  by (metis mset_filter size_mset)

lemma length_filter_index:
  "length (filter (\<lambda>j. P (xs ! j)) [0..<length xs]) = length (filter P xs)"
proof -
  have "filter P xs = filter P (map (\<lambda>j. xs ! j) [0..<length xs])" by (simp only: map_nth)
  also have "\<dots> = map (\<lambda>j. xs ! j) (filter (\<lambda>j. P (xs ! j)) [0..<length xs])"
    by (simp add: filter_map comp_def)
  finally show ?thesis by simp
qed

lemma length_filter_mono:
  assumes "\<And>x. x \<in> set xs \<Longrightarrow> P x \<Longrightarrow> Q x"
  shows "length (filter P xs) \<le> length (filter Q xs)"
  using assms by (induction xs) auto

text \<open>A row with at least \<open>k\<close> rows of strictly smaller value is not among the \<open>k\<close> smallest.\<close>

lemma not_in_nsmallest_index:
  assumes "k \<le> length (filter (\<lambda>j. xs ! j < xs ! i) [0..<length xs])"
  shows "i \<notin> set (nsmallest_index k xs)"
proof
  define srt where "srt = sort_key (\<lambda>j. xs ! j) [0..<length xs]"
  assume "i \<in> set (nsmallest_index k xs)"
  then have "i \<in> set (take k srt)" by (simp add: nsmallest_index_def srt_def)
  then obtain p where p: "p < length (take k srt)" "take k srt ! p = i"
    by (auto simp: in_set_conv_nth)
  then have pk: "p < k" and pl: "p < length srt" and sp: "srt ! p = i" by simp_all
  have sorted: "sorted (map (\<lambda>j. xs ! j) srt)" unfolding srt_def by (rule sorted_sort_key)
  have none: "filter (\<lambda>j. xs ! j < xs ! i) (drop p srt) = []"
  proof (rule filter_False, rule ballI)
    fix j assume "j \<in> set (drop p srt)"
    then obtain m where m: "m < length (drop p srt)" "drop p srt ! m = j"
      by (auto simp: in_set_conv_nth)
    then have pm: "p + m < length srt" and j: "srt ! (p + m) = j" by simp_all
    have "map (\<lambda>j. xs ! j) srt ! p \<le> map (\<lambda>j. xs ! j) srt ! (p + m)"
      using sorted pm by (intro sorted_nth_mono) simp_all
    then have "xs ! i \<le> xs ! j" using pl pm sp j by simp
    then show "\<not> xs ! j < xs ! i" by simp
  qed
  have "filter (\<lambda>j. xs ! j < xs ! i) srt
        = filter (\<lambda>j. xs ! j < xs ! i) (take p srt) @ filter (\<lambda>j. xs ! j < xs ! i) (drop p srt)"
    by (metis append_take_drop_id filter_append)
  then have "length (filter (\<lambda>j. xs ! j < xs ! i) srt)
             = length (filter (\<lambda>j. xs ! j < xs ! i) (take p srt))"
    unfolding none by simp
  also have "\<dots> \<le> length (take p srt)" by (rule length_filter_le)
  also have "\<dots> \<le> p" by simp
  finally have le_p: "length (filter (\<lambda>j. xs ! j < xs ! i) srt) \<le> p" .
  have "mset srt = mset [0..<length xs]" unfolding srt_def by simp
  then have "length (filter (\<lambda>j. xs ! j < xs ! i) srt)
             = length (filter (\<lambda>j. xs ! j < xs ! i) [0..<length xs])"
    by (rule length_filter_mset_cong)
  with le_p assms pk show False by simp
qed

text \<open>Enough rows lie at or above the 30th percentile of a column.\<close>

lemma rows_above_quantile:
  assumes "xs \<noteq> []" "quantile xs 0.3 = Some t"
  shows "max 1 (length xs div 20) \<le> length (filter (\<lambda>j. t \<le> xs ! j) [0..<length xs])"
proof -
  define n where "n = length xs"
  define lo where "lo = nat \<lfloor>0.3 * real (length xs - 1)\<rfloor>"
  define hi where "hi = min (lo + 1) (length xs - 1)"
  define s where "s = sort xs"
  have q: "(0::real) \<le> 0.3" "(0.3::real) \<le> 1" by simp_all
  obtain t' where "quantile xs 0.3 = Some t'" "t' \<le> sort xs ! hi"
    using quantile_between(1) [OF assms(1) q] unfolding hi_def lo_def by blast
  then have t_hi: "t \<le> s ! hi" using assms(2) by (simp add: s_def)
  have hin: "hi < n" using quantile_between(3) [OF assms(1) q] unfolding hi_def lo_def n_def .
  have lo_le: "real lo \<le> 0.3 * real (n - 1)"
    using quantile_between(4) [OF assms(1) q] unfolding lo_def n_def .
  have hi_le: "hi \<le> lo + 1" unfolding hi_def by simp
  have len_s: "length s = n" by (simp add: s_def n_def)
  have srt: "sorted s" by (simp add: s_def)
  have all: "filter (\<lambda>x. t \<le> x) (drop hi s) = drop hi s"
  proof (rule filter_True, rule ballI)
    fix x assume "x \<in> set (drop hi s)"
    then obtain m where m: "m < length (drop hi s)" "drop hi s ! m = x"
      by (auto simp: in_set_conv_nth)
    then have hm: "hi + m < length s" and x: "s ! (hi + m) = x" by simp_all
    have "s ! hi \<le> s ! (hi + m)" using srt hm by (intro sorted_nth_mono) simp_all
    then show "t \<le> x" using t_hi x by simp
  qed
  have "filter (\<lambda>x. t \<le> x) s
        = filter (\<lambda>x. t \<le> x) (take hi s) @ filter (\<lambda>x. t \<le> x) (drop hi s)"
    by (metis append_take_drop_id filter_append)
  then have "length (filter (\<lambda>x. t \<le> x) s)
             = length (filter (\<lambda>x. t \<le> x) (take hi s)) + length (drop hi s)"
    unfolding all by simp
  then have "length (drop hi s) \<le> length (filter (\<lambda>x. t \<le> x) s)"
    by linarith
  then have c1: "n - hi \<le> length (filter (\<lambda>x. t \<le> x) s)" by (simp add: len_s)
  have "mset s = mset xs" by (simp add: s_def)
  then have c2: "length (filter (\<lambda>x. t \<le> x) s) = length (filter (\<lambda>x. t \<le> x) xs)"
    by (rule length_filter_mset_cong)
  have c3: "length (filter (\<lambda>j. t \<le> xs ! j) [0..<length xs]) = length (filter (\<lambda>x. t \<le> x) xs)"
    by (rule length_filter_index)
  have one: "1 \<le> n - hi" using hin by simp
  have frac: "n div 20 \<le> n - hi"
  proof (cases "n < 20")
    case True
    then show ?thesis by simp
  next
    case False
    have "20 * (n div 20) \<le> n" by simp
    then have "20 * real (n div 20) \<le> real n" by (metis of_nat_le_iff of_nat_mult of_nat_numeral)
    moreover have "real hi \<le> real lo + 1" using hi_le by linarith
    moreover have "real (n - 1) = real n - 1" using False by simp
    moreover have "20 \<le> real n" using False by simp
    ultimately have "real (n div 20) \<le> real n - real hi" using lo_le by linarith
    then have "real (n div 20) \<le> real (n - hi)" using hin by simp
    then show ?thesis by (simp only: of_nat_le_iff)
  qed
  have "max 1 (n div 20) \<le> n - hi" using one frac by simp
  then show ?thesis using c1 c2 c3 unfolding n_def by linarith
qed

lemma churn_score_nth:
  assumes "j < length df"
  shows "churn_score df ! j =
           churn_score_row (days_since_last_purchase (df ! j) > 180)
             (engagement_score (df ! j) < 30)
             (purchase_frequency (df ! j) = 0)
             (nan_lt (Some (total_spent (df ! j))) (quantile (map total_spent df) 0.3))"
  using assms by (simp add: churn_score_def Let_def)

lemma churn_score_le_top:
  assumes "j < length df"
  shows "churn_score df ! j \<le> 9007199254740991 / 9007199254740992"
  unfolding churn_score_nth [OF assms] by (rule churn_score_row_le_top)

lemma churn_score_below_top:
  assumes "j < length df" "quantile (map total_spent df) 0.3 = Some t" "t \<le> total_spent (df ! j)"
  shows "churn_score df ! j < 9007199254740991 / 9007199254740992"
proof -
  have high: "nan_lt (Some (total_spent (df ! j))) (quantile (map total_spent df) 0.3) = False"
    unfolding assms(2) using assms(3) by (simp add: nan_lt_def nan_gt_def)
  show ?thesis
    unfolding churn_score_nth [OF assms(1)] high by (rule churn_score_row_below_top)
qed

lemma churn_score_all_flags:
  assumes "i < length df"
    and "days_since_last_purchase (df ! i) > 180" "engagement_score (df ! i) < 30"
    and "purchase_frequency (df ! i) = 0"
    and "nan_lt (Some (total_spent (df ! i))) (quantile (map total_spent df) 0.3)"
  shows "churn_score df ! i = 9007199254740991 / 9007199254740992"
  unfolding churn_score_nth [OF assms(1)] using assms(2-5)
  by (simp add: churn_score_row_values)

lemma all_flags_row_labelled:
  assumes i: "i < length df"
    and flags: "days_since_last_purchase (df ! i) > 180" "engagement_score (df ! i) < 30"
      "purchase_frequency (df ! i) = 0"
    and low: "nan_lt (Some (total_spent (df ! i))) (quantile (map total_spent df) 0.3)"
  shows "churn_label df ! i = 1"
proof -
  define n where "n = length df"
  define cs where "cs = churn_score df"
  define top :: real where "top = 9007199254740991 / 9007199254740992"
  define l0 where "l0 = map (\<lambda>s. as_int (nan_ge (Some s) (quantile cs 0.7))) cs"
  define l1 where "l1 = (if sum_list l0 = 0
                then loc_assign (nlargest_index (max 1 (n div 20)) cs) 1 l0 else l0)"
  have len_cs: "length cs = n" by (simp add: cs_def n_def)
  have len0: "length l0 = n" by (simp add: l0_def len_cs)
  have len1: "length l1 = n" by (simp add: l1_def len0)
  have i_n: "i < n" using i by (simp add: n_def)
  have csi: "cs ! i = top"
    unfolding cs_def top_def by (rule churn_score_all_flags [OF i flags low])
  have ne: "cs \<noteq> []" using i_n len_cs by auto
  obtain thr where thr: "quantile cs 0.7 = Some thr" "thr \<le> Max (set cs)"
    using quantile_le_Max [OF ne, of "0.7"] by auto
  have "\<forall>a\<in>set cs. a \<le> top"
  proof
    fix a assume "a \<in> set cs"
    then obtain j where "j < length cs" "cs ! j = a" by (auto simp: in_set_conv_nth)
    then show "a \<le> top" using churn_score_le_top [of j df] by (simp add: cs_def top_def)
  qed
  then have "Max (set cs) \<le> top" using ne by simp
  then have "thr \<le> top" using thr(2) by linarith
  then have l0i: "l0 ! i = 1"
    using i_n len_cs csi thr(1) by (simp add: l0_def nan_ge_def as_int_def)
  have l1i: "l1 ! i = 1"
    unfolding l1_def using nth_loc_assign [of i l0 _ 1] i_n len0 l0i by simp
  obtain t where t: "quantile (map total_spent df) 0.3 = Some t"
    using low by (cases "quantile (map total_spent df) 0.3") (simp_all add: nan_lt_def nan_gt_def)
  have tne: "map total_spent df \<noteq> []" using i by auto
  have above: "max 1 (n div 20)
        \<le> length (filter (\<lambda>j. t \<le> map total_spent df ! j) [0..<n])"
    using rows_above_quantile [OF tne t] by (simp add: n_def)
  have "length (filter (\<lambda>j. t \<le> map total_spent df ! j) [0..<n])
        \<le> length (filter (\<lambda>j. cs ! j < cs ! i) [0..<n])"
  proof (rule length_filter_mono)
    fix j assume "j \<in> set [0..<n]" "t \<le> map total_spent df ! j"
    then have j: "j < length df" "t \<le> total_spent (df ! j)" by (simp_all add: n_def)
    have "cs ! j < top"
      unfolding cs_def top_def by (rule churn_score_below_top [OF j(1) t j(2)])
    then show "cs ! j < cs ! i" by (simp only: csi)
  qed
  with above have "max 1 (n div 20) \<le> length (filter (\<lambda>j. cs ! j < cs ! i) [0..<length cs])"
    unfolding len_cs by linarith
  then have out: "i \<notin> set (nsmallest_index (max 1 (n div 20)) cs)"
    by (rule not_in_nsmallest_index)
  have stage: "churn_label df =
      (if sum_list l1 = int n then loc_assign (nsmallest_index (max 1 (n div 20)) cs) 0 l1 else l1)"
    using churn_label_stages [of df]
    unfolding cs_def [symmetric] l0_def [symmetric] n_def [symmetric] l1_def [symmetric] .
  show ?thesis
    unfolding stage using nth_loc_assign [of i l1 _ 0] out i_n len1 l1i by simp
qed

lemma ex_high_risk_row:
  "2 < length ex_dataset" "days_since_last_purchase (ex_dataset ! 2) = 200"
  "engagement_score (ex_dataset ! 2) = 20" "purchase_frequency (ex_dataset ! 2) = 0"
  "total_spent (ex_dataset ! 2) = 200"
  by (simp_all add: ex_dataset_rows feature_of_def ex_c_def)

lemma ex_spend_percentile: "quantile (map total_spent ex_dataset) 0.3 = Some 260"
  by (simp add: quantile_def Let_def)

text \<open>
  Claim C9, as stated, fails on the score. Customer \<open>C\<close> of the three-customer dataset has
  \<^verbatim>\<open>days_since_last_purchase\<close> 200, \<^verbatim>\<open>engagement_score\<close> 20, \<^verbatim>\<open>purchase_frequency\<close> 0 and a
  \<^verbatim>\<open>total_spent\<close> of 200, below the 30th percentile 260 of the dataset's spend. Its composite
  score is the double sum \<^verbatim>\<open>0.4 + 0.3 + 0.2 + 0.1 = 0.9999999999999999\<close>, which is below 1.
\<close>

theorem high_risk_row_score_counterexample:
  "days_since_last_purchase (ex_dataset ! 2) = 200
   \<and> engagement_score (ex_dataset ! 2) = 20
   \<and> purchase_frequency (ex_dataset ! 2) = 0
   \<and> total_spent (ex_dataset ! 2) = 200
   \<and> quantile (map total_spent ex_dataset) 0.3 = Some 260
   \<and> churn_score ex_dataset ! 2 = 9007199254740991 / 9007199254740992
   \<and> churn_score ex_dataset ! 2 < 1"
  by (simp add: ex_high_risk_row ex_dataset_scores quantile_def)


text \<open>
  Claim C9, amended. In every dataset, a row with \<^verbatim>\<open>days_since_last_purchase\<close> 200,
  \<^verbatim>\<open>engagement_score\<close> 20, \<^verbatim>\<open>purchase_frequency\<close> 0 and a \<^verbatim>\<open>total_spent\<close> below the 30th
  percentile of the dataset's spend has the composite score \<open>1 - 1 / 2 ^ 53\<close> (the double
  \<^verbatim>\<open>0.9999999999999999\<close> that the four weights add up to), no row of the dataset has a larger
  score, and the row has the churn label 1 after the threshold and the two steps that
  force variety.
\<close>

theorem high_risk_row_top_score_and_label:
  assumes "i < length df"
    and "days_since_last_purchase (df ! i) = 200"
    and "engagement_score (df ! i) = 20"
    and "purchase_frequency (df ! i) = 0"
    and "nan_lt (Some (total_spent (df ! i))) (quantile (map total_spent df) 0.3)"
  shows "churn_score df ! i = 1 - 1 / 2 ^ 53
         \<and> (\<forall>j<length df. churn_score df ! j \<le> churn_score df ! i)
         \<and> churn_label df ! i = 1"
proof (intro conjI allI impI)
  have top: "churn_score df ! i = 9007199254740991 / 9007199254740992"
    by (rule churn_score_all_flags) (use assms in simp_all)
  then show "churn_score df ! i = 1 - 1 / 2 ^ 53" by simp
  show "churn_score df ! j \<le> churn_score df ! i" if "j < length df" for j
    unfolding top using that by (rule churn_score_le_top)
  show "churn_label df ! i = 1"
    by (rule all_flags_row_labelled) (use assms in simp_all)
qed


text \<open>The theorem at customer \<open>C\<close> of the three-customer dataset (spend 200 below 260).\<close>

theorem high_risk_row_top_score_and_label_witness:
  "2 < length ex_dataset
   \<and> days_since_last_purchase (ex_dataset ! 2) = 200
   \<and> engagement_score (ex_dataset ! 2) = 20
   \<and> purchase_frequency (ex_dataset ! 2) = 0
   \<and> total_spent (ex_dataset ! 2) = 200
   \<and> quantile (map total_spent ex_dataset) 0.3 = Some 260
   \<and> churn_score ex_dataset ! 2 = 1 - 1 / 2 ^ 53
   \<and> churn_score ex_dataset ! 0 \<le> churn_score ex_dataset ! 2
   \<and> churn_score ex_dataset ! 1 \<le> churn_score ex_dataset ! 2
   \<and> churn_label ex_dataset ! 2 = 1"
proof -
  have low: "nan_lt (Some (total_spent (ex_dataset ! 2))) (quantile (map total_spent ex_dataset) 0.3)"
    unfolding ex_spend_percentile ex_high_risk_row(5) by (simp add: nan_lt_def nan_gt_def)
  have len: "0 < length ex_dataset" "1 < length ex_dataset"
    using ex_high_risk_row(1) by linarith+
  have main: "churn_score ex_dataset ! 2 = 1 - 1 / 2 ^ 53
         \<and> (\<forall>j<length ex_dataset. churn_score ex_dataset ! j \<le> churn_score ex_dataset ! 2)
         \<and> churn_label ex_dataset ! 2 = 1"
    by (rule high_risk_row_top_score_and_label [OF ex_high_risk_row(1-4) low])
  have score: "churn_score ex_dataset ! 2 = 1 - 1 / 2 ^ 53" using main by (rule conjunct1)
  have rest: "(\<forall>j<length ex_dataset. churn_score ex_dataset ! j \<le> churn_score ex_dataset ! 2)
         \<and> churn_label ex_dataset ! 2 = 1" using main by (rule conjunct2)
  have all: "\<forall>j<length ex_dataset. churn_score ex_dataset ! j \<le> churn_score ex_dataset ! 2"
    using rest by (rule conjunct1)
  have label: "churn_label ex_dataset ! 2 = 1" using rest by (rule conjunct2)
  have le0: "churn_score ex_dataset ! 0 \<le> churn_score ex_dataset ! 2"
    using all len(1) by blast
  have le1: "churn_score ex_dataset ! 1 \<le> churn_score ex_dataset ! 2"
    using all len(2) by blast
  show ?thesis
    by (intro conjI ex_high_risk_row ex_spend_percentile score le0 le1 label)
qed

end
